theory Spec2Isabelle
  imports Main
begin

section \<open>Pattern algebra\<close>

text \<open>
  The terms of matching logic as the converter and the proof engine use them
  (\<^verbatim>\<open>proof_generation.pattern\<close>): symbols, the three kinds of variables, application,
  implication, the two binders, and named notations carrying their arguments. Equality is
  structural.
\<close>

datatype pattern =
    Symbol string
  | EVar nat
  | SVar nat
  | MetaVar nat
  | App pattern pattern
  | Implies pattern pattern
  | Exists nat pattern
  | Mu nat pattern
  | Notation string "pattern list"

text \<open>The exceptions the modelled code raises.\<close>

datatype error = AssertionError | NotImplementedError | ValueError

section \<open>Converted axioms and their grouping\<close>

datatype AxiomType = Unclassified | RewriteRule | FunctionalSymbol | FunctionEvent | HookEvent

datatype ConvertedAxiom = ConvertedAxiom (kind: AxiomType) (pattern: pattern)

type_synonym Axioms = "AxiomType \<rightharpoonup> ConvertedAxiom list"

text \<open>\<^verbatim>\<open>dict.setdefault(k, d)\<close>: store the default only when the key is absent.\<close>

definition setdefault :: "('k \<rightharpoonup> 'v) \<Rightarrow> 'k \<Rightarrow> 'v \<Rightarrow> ('k \<rightharpoonup> 'v)" where
  "setdefault m k d = (case m k of None \<Rightarrow> m(k \<mapsto> d) | Some _ \<Rightarrow> m)"

text \<open>
  One iteration of the loop of \<^verbatim>\<open>KoreConverter._organize_axioms\<close>: make sure the group of
  the axiom's kind exists, then append the axiom unless the group already holds an equal one.
\<close>

definition organize_step :: "Axioms \<Rightarrow> ConvertedAxiom \<Rightarrow> Axioms" where
  "organize_step organized_axioms axiom =
     (let m = setdefault organized_axioms (kind axiom) []
      in case m (kind axiom) of
           None \<Rightarrow> m
         | Some grp \<Rightarrow>
             if axiom \<in> set grp then m else m(kind axiom \<mapsto> grp @ [axiom]))"

definition organize_axioms :: "ConvertedAxiom list \<Rightarrow> Axioms" where
  "organize_axioms axioms = foldl organize_step Map.empty axioms"

text \<open>
  The grouping as the specification words it: the axioms of one kind, in first-seen order,
  each value kept once (its first occurrence).
\<close>

fun dedup_first :: "'a list \<Rightarrow> 'a list \<Rightarrow> 'a list" where
  "dedup_first seen [] = []"
| "dedup_first seen (x # xs) =
     (if x \<in> set seen then dedup_first seen xs else x # dedup_first (seen @ [x]) xs)"

definition spec_group :: "ConvertedAxiom list \<Rightarrow> AxiomType \<Rightarrow> ConvertedAxiom list option" where
  "spec_group axioms k =
     (if k \<in> set (map kind axioms)
      then Some (dedup_first [] (filter (\<lambda>a. kind a = k) axioms))
      else None)"

section \<open>Hilbert proofs (\<^verbatim>\<open>proofs/propositional.py\<close>)\<close>

text \<open>
  Modelled from the spec: \<^verbatim>\<open>Pattern.instantiate\<close> of the absent module
  \<^verbatim>\<open>proof_generation/proof.py\<close>. It replaces every occurrence of one metavariable by
  the plug, descending through every constructor.
\<close>

fun inst :: "nat \<Rightarrow> pattern \<Rightarrow> pattern \<Rightarrow> pattern" where
  "inst v plug (Symbol n) = Symbol n"
| "inst v plug (EVar n) = EVar n"
| "inst v plug (SVar n) = SVar n"
| "inst v plug (MetaVar n) = (if n = v then plug else MetaVar n)"
| "inst v plug (App l r) = App (inst v plug l) (inst v plug r)"
| "inst v plug (Implies l r) = Implies (inst v plug l) (inst v plug r)"
| "inst v plug (Exists x b) = Exists x (inst v plug b)"
| "inst v plug (Mu x b) = Mu x (inst v plug b)"
| "inst v plug (Notation n args) = Notation n (map (inst v plug) args)"

text \<open>The metavariables that occur in a pattern.\<close>

fun metavars_of :: "pattern \<Rightarrow> nat set" where
  "metavars_of (Symbol n) = {}"
| "metavars_of (EVar n) = {}"
| "metavars_of (SVar n) = {}"
| "metavars_of (MetaVar n) = {n}"
| "metavars_of (App l r) = metavars_of l \<union> metavars_of r"
| "metavars_of (Implies l r) = metavars_of l \<union> metavars_of r"
| "metavars_of (Exists x b) = metavars_of b"
| "metavars_of (Mu x b) = metavars_of b"
| "metavars_of (Notation n args) = (\<Union>a \<in> set args. metavars_of a)"

text \<open>
  Proof objects. \<open>Prop1\<close>, \<open>Prop2\<close> and \<open>ModusPonens\<close> are the classes that
  \<^verbatim>\<open>propositional.py\<close> imports; \<open>Assumption\<close> is the proof class that
  \<^verbatim>\<open>tests/unit/test_propositional.py\<close> declares (its conclusion is the stored pattern);
  \<open>Instantiate\<close> stands for an instantiated axiom schema.
\<close>

datatype Proof =
    Prop1
  | Prop2
  | ModusPonens Proof Proof
  | Instantiate Proof nat pattern
  | Assumption pattern

text \<open>
  Modelled from the spec: \<^verbatim>\<open>Proof.conclusion\<close> of the absent module
  \<^verbatim>\<open>proof_generation/proof.py\<close>. \<open>Prop1\<close> and \<open>Prop2\<close> are the two propositional
  axiom schemas over the metavariables 0, 1, 2 (the numbering that \<^verbatim>\<open>imp_reflexivity\<close>
  relies on); \<open>ModusPonens left right\<close> is valid only if the conclusion of \<open>right\<close> is an
  implication \<open>A \<rightarrow> B\<close> and the conclusion of \<open>left\<close> equals \<open>A\<close>, and then concludes
  \<open>B\<close>; an invalid step is an \<open>AssertionError\<close>.
\<close>

fun conclusion :: "Proof \<Rightarrow> error + pattern" where
  "conclusion Prop1 = Inr (Implies (MetaVar 0) (Implies (MetaVar 1) (MetaVar 0)))"
| "conclusion Prop2 =
     Inr (Implies (Implies (MetaVar 0) (Implies (MetaVar 1) (MetaVar 2)))
                  (Implies (Implies (MetaVar 0) (MetaVar 1)) (Implies (MetaVar 0) (MetaVar 2))))"
| "conclusion (ModusPonens left right) =
     (case conclusion right of
        Inl e \<Rightarrow> Inl e
      | Inr (Implies a b) \<Rightarrow>
          (case conclusion left of
             Inl e \<Rightarrow> Inl e
           | Inr l \<Rightarrow> if l = a then Inr b else Inl AssertionError)
      | Inr _ \<Rightarrow> Inl AssertionError)"
| "conclusion (Instantiate p v plug) =
     (case conclusion p of Inl e \<Rightarrow> Inl e | Inr c \<Rightarrow> Inr (inst v plug c))"
| "conclusion (Assumption c) = Inr c"

text \<open>
  Modelled from the spec: \<^verbatim>\<open>Proof.instantiate\<close> of the absent module
  \<^verbatim>\<open>proof_generation/proof.py\<close>: it substitutes a metavariable throughout a proof's
  conclusion and all sub-proofs, producing a new proof of the substituted conclusion.
\<close>

fun instantiate :: "Proof \<Rightarrow> nat \<Rightarrow> pattern \<Rightarrow> Proof" where
  "instantiate (ModusPonens left right) v plug =
     ModusPonens (instantiate left v plug) (instantiate right v plug)"
| "instantiate (Assumption c) v plug = Assumption (inst v plug c)"
| "instantiate p v plug = Instantiate p v plug"

text \<open>The constructors of \<^verbatim>\<open>class ProofExp\<close> in \<^verbatim>\<open>propositional.py\<close>.\<close>

definition prop1 :: Proof where
  "prop1 = Prop1"

definition prop2 :: Proof where
  "prop2 = Prop2"

definition modus_ponens :: "Proof \<Rightarrow> Proof \<Rightarrow> Proof" where
  "modus_ponens left right = ModusPonens left right"

text \<open>
  \<^verbatim>\<open>Propositional.imp_transitivity\<close>. Both \<^verbatim>\<open>match\<close> statements raise
  \<open>AssertionError\<close> on a conclusion that is not an implication, and the inner
  \<^verbatim>\<open>assert phi1_r == phi1\<close> on a middle pattern that differs.
\<close>

definition imp_transitivity :: "Proof \<Rightarrow> Proof \<Rightarrow> error + Proof" where
  "imp_transitivity left right =
     (case conclusion left of
        Inl e \<Rightarrow> Inl e
      | Inr (Implies phi0 phi1) \<Rightarrow>
          (case conclusion right of
             Inl e \<Rightarrow> Inl e
           | Inr (Implies phi1_r phi2) \<Rightarrow>
               if phi1_r = phi1
               then
                 (let right_conc = Implies phi1_r phi2;
                      step1 = modus_ponens right (instantiate prop1 0 right_conc);
                      step2 = modus_ponens step1
                                (instantiate (instantiate (instantiate prop2 1 phi1) 2 phi2)
                                   0 (MetaVar 1))
                  in Inr (modus_ponens left (instantiate step2 1 phi0)))
               else Inl AssertionError
           | Inr _ \<Rightarrow> Inl AssertionError)
      | Inr _ \<Rightarrow> Inl AssertionError)"

text \<open>The patterns and proofs of \<^verbatim>\<open>class Propositional\<close>.\<close>

definition phi0 :: pattern where
  "phi0 = MetaVar 0"

definition phi0_implies_phi0 :: pattern where
  "phi0_implies_phi0 = Implies phi0 phi0"

definition bot_pattern :: pattern where
  "bot_pattern = Mu 0 (SVar 0)"

definition neg :: "pattern \<Rightarrow> pattern" where
  "neg p = Implies p bot_pattern"

definition top_pattern :: pattern where
  "top_pattern = neg bot_pattern"

definition imp_reflexivity :: Proof where
  "imp_reflexivity =
     modus_ponens
       (instantiate prop1 1 phi0)
       (modus_ponens
          (instantiate prop1 1 phi0_implies_phi0)
          (instantiate (instantiate prop2 1 phi0_implies_phi0) 2 phi0))"

definition top_intro :: Proof where
  "top_intro = instantiate imp_reflexivity 0 bot_pattern"

section \<open>Kore syntax (the converter's input)\<close>

text \<open>
  The part of \<^verbatim>\<open>pyk.kore.syntax\<close> that \<^verbatim>\<open>kore_converter.py\<close> inspects: sorts with their
  name, and the pattern constructors that \<^verbatim>\<open>_convert_pattern\<close> matches. Every other
  pattern class of the library is \<open>Kore_Other\<close>.
\<close>

datatype Sort = SortApp (sort_name: string) "Sort list" | SortVar (sort_name: string)

datatype kore =
    Kore_Rewrites Sort kore kore
  | Kore_And Sort kore kore
  | Kore_Or Sort kore kore
  | Kore_App string "Sort list" "kore list"
  | Kore_EVar string Sort
  | Kore_Top Sort
  | Kore_DV Sort string
  | Kore_Other

datatype KoreAxiom =
  KoreAxiom (axiom_vars: "string list") (axiom_pattern: kore) (axiom_attrs: "kore list")

subsection \<open>Notations of \<^verbatim>\<open>kore_lemmas\<close> and \<^verbatim>\<open>propositional\<close>\<close>

text \<open>
  Modelled from the spec: the notation classes \<^verbatim>\<open>KoreRewrites\<close>, \<^verbatim>\<open>KoreAnd\<close>,
  \<^verbatim>\<open>KoreOr\<close>, \<^verbatim>\<open>KoreApplies\<close>, \<^verbatim>\<open>KoreTop\<close>, \<^verbatim>\<open>KoreDv\<close>, \<^verbatim>\<open>Cell\<close>,
  \<^verbatim>\<open>KoreNestedCells\<close> of the absent module \<^verbatim>\<open>proof_generation/proofs/kore_lemmas.py\<close>
  and \<^verbatim>\<open>And\<close>, \<^verbatim>\<open>Top\<close> of the newer \<^verbatim>\<open>propositional\<close> module: each is a named macro
  that keeps its arguments, and the cell marker and the nested-cells marker are distinct.
\<close>

definition KoreRewrites :: "pattern \<Rightarrow> pattern \<Rightarrow> pattern \<Rightarrow> pattern" where
  "KoreRewrites s l r = Notation ''kore-rewrites'' [s, l, r]"

definition KoreAnd :: "pattern \<Rightarrow> pattern \<Rightarrow> pattern \<Rightarrow> pattern" where
  "KoreAnd s l r = Notation ''kore-and'' [s, l, r]"

definition KoreOr :: "pattern \<Rightarrow> pattern \<Rightarrow> pattern \<Rightarrow> pattern" where
  "KoreOr s l r = Notation ''kore-or'' [s, l, r]"

definition KoreApplies :: "pattern list \<Rightarrow> pattern \<Rightarrow> pattern" where
  "KoreApplies sorts phi = Notation ''kore-app'' (sorts @ [phi])"

definition KoreTop :: "pattern \<Rightarrow> pattern" where
  "KoreTop s = Notation ''kore-top'' [s]"

definition KoreDv :: "pattern \<Rightarrow> pattern \<Rightarrow> pattern" where
  "KoreDv s v = Notation ''kore-dv'' [s, v]"

definition Cell :: "pattern \<Rightarrow> pattern \<Rightarrow> pattern" where
  "Cell symb contents = Notation ''cell'' [symb, contents]"

definition KoreNestedCells :: "pattern \<Rightarrow> pattern \<Rightarrow> pattern" where
  "KoreNestedCells symb contents = Notation ''kore-nested-cells'' [symb, contents]"

definition prop_And :: "pattern \<Rightarrow> pattern \<Rightarrow> pattern" where
  "prop_And l r = Notation ''and'' [l, r]"

definition prop_Top :: pattern where
  "prop_Top = Notation ''top'' []"

text \<open>The \<^verbatim>\<open>isinstance\<close> tests of the converter.\<close>

fun is_Cell :: "pattern \<Rightarrow> bool" where
  "is_Cell (Notation n args) = (n = ''cell'')"
| "is_Cell _ = False"

fun is_NestedCells :: "pattern \<Rightarrow> bool" where
  "is_NestedCells (Notation n args) = (n = ''kore-nested-cells'')"
| "is_NestedCells _ = False"

fun is_App :: "pattern \<Rightarrow> bool" where
  "is_App (App l r) = True"
| "is_App _ = False"

fun is_Symbol :: "pattern \<Rightarrow> bool" where
  "is_Symbol (Symbol n) = True"
| "is_Symbol _ = False"

text \<open>
  Modelled from the spec: \<^verbatim>\<open>deconstruct_nary_application\<close> of the absent module
  \<^verbatim>\<open>kore_lemmas\<close> decomposes a left-nested application into its head and its arguments.
\<close>

fun deconstruct_nary_application :: "pattern \<Rightarrow> pattern \<times> pattern list" where
  "deconstruct_nary_application (App l r) =
     (case deconstruct_nary_application l of (h, args) \<Rightarrow> (h, args @ [r]))"
| "deconstruct_nary_application p = (p, [])"

section \<open>The specification converter (\<^verbatim>\<open>kore_converter.py\<close>)\<close>

text \<open>
  The caches of \<^verbatim>\<open>KoreConverter\<close> that the modelled methods read or write.
  \<^verbatim>\<open>_symbols\<close> maps a name to a \<^verbatim>\<open>Symbol\<close>, kept here by the symbol's own name;
  \<^verbatim>\<open>_metavars\<close> maps a name to a \<^verbatim>\<open>MetaVar\<close>, kept by its number in an
  association list, since the next metavariable is numbered by the dictionary's length.
\<close>

record converter =
  symbols :: "string \<rightharpoonup> string"
  metavars :: "(string \<times> nat) list"
  axioms_to_choose_from :: "KoreAxiom list"
  axioms_cache :: "KoreAxiom \<rightharpoonup> ConvertedAxiom"
  raw_functional_symbols :: "string set"
  functional_symbols :: "pattern set"
  cell_symbols :: "string set"

definition apostrophe :: char where
  "apostrophe = CHR 0x27"

definition cell_prefix :: string where
  "cell_prefix = ''Lbl'' @ [apostrophe] @ ''-LT-'' @ [apostrophe]"

definition cell_suffix :: string where
  "cell_suffix = [apostrophe] @ ''-GT-'' @ [apostrophe]"

definition GENERATED_TOP_SYMBOL :: string where
  "GENERATED_TOP_SYMBOL = cell_prefix @ ''generatedTop'' @ cell_suffix"

text \<open>
  \<^verbatim>\<open>_resolve_symbol\<close> on a string: the first occurrence stores \<^verbatim>\<open>Symbol('kore_' + name)\<close>
  and registers it as functional when the name was declared functional.
\<close>

definition resolve_symbol :: "converter \<Rightarrow> string \<Rightarrow> pattern \<times> converter" where
  "resolve_symbol st name =
     (case symbols st name of
        Some n \<Rightarrow> (Symbol n, st)
      | None \<Rightarrow>
          (let symb = Symbol (''kore_'' @ name);
               st1 = st\<lparr>symbols := (symbols st)(name \<mapsto> ''kore_'' @ name)\<rparr>;
               st2 = (if name \<in> raw_functional_symbols st1
                      then st1\<lparr>functional_symbols := insert symb (functional_symbols st1)\<rparr>
                      else st1)
           in (symb, st2)))"

text \<open>\<^verbatim>\<open>_resolve_symbol\<close> on a sort: the same dictionary, keyed by the sort's name.\<close>

definition resolve_symbol_sort :: "converter \<Rightarrow> Sort \<Rightarrow> pattern \<times> converter" where
  "resolve_symbol_sort st srt =
     (case symbols st (sort_name srt) of
        Some n \<Rightarrow> (Symbol n, st)
      | None \<Rightarrow>
          (Symbol (''kore_sort_'' @ sort_name srt),
           st\<lparr>symbols := (symbols st)(sort_name srt \<mapsto> ''kore_sort_'' @ sort_name srt)\<rparr>))"

text \<open>The comprehension \<^verbatim>\<open>[self._resolve_symbol(sort) for sort in sorts]\<close>.\<close>

fun resolve_sorts :: "converter \<Rightarrow> Sort list \<Rightarrow> pattern list \<times> converter" where
  "resolve_sorts st [] = ([], st)"
| "resolve_sorts st (srt # sorts) =
     (case resolve_symbol_sort st srt of
        (p, st1) \<Rightarrow> (case resolve_sorts st1 sorts of (ps, st2) \<Rightarrow> (p # ps, st2)))"

definition resolve_metavar :: "converter \<Rightarrow> string \<Rightarrow> pattern \<times> converter" where
  "resolve_metavar st name =
     (case map_of (metavars st) name of
        Some n \<Rightarrow> (MetaVar n, st)
      | None \<Rightarrow>
          (MetaVar (length (metavars st)),
           st\<lparr>metavars := metavars st @ [(name, length (metavars st))]\<rparr>))"

text \<open>
  The regular expression of \<^verbatim>\<open>is_cell\<close>, matched at the start of the symbol: the prefix,
  then the group \<^verbatim>\<open>(.+)\<close> (greedy, at least one character, none a line feed), then the
  suffix. \<open>longest_group acc rest\<close> is the longest admissible group extending \<open>acc\<close>.
\<close>

fun longest_group :: "string \<Rightarrow> string \<Rightarrow> string option" where
  "longest_group acc [] = None"
| "longest_group acc (c # cs) =
     (let here = (if acc \<noteq> [] \<and> take (length cell_suffix) (c # cs) = cell_suffix
                  then Some acc else None)
      in if c = CHR 0x0A then here
         else (case longest_group (acc @ [c]) cs of Some g \<Rightarrow> Some g | None \<Rightarrow> here))"

definition is_cell_symbol :: "string \<Rightarrow> string option" where
  "is_cell_symbol symbol =
     (if take (length cell_prefix) symbol = cell_prefix
      then longest_group [] (drop (length cell_prefix) symbol)
      else None)"

fun is_cell :: "kore \<Rightarrow> string option" where
  "is_cell (Kore_App symbol sorts args) = is_cell_symbol symbol"
| "is_cell _ = None"

text \<open>
  \<^verbatim>\<open>chain_patterns\<close>: the unpacking \<^verbatim>\<open>*patterns_left, next_one = patterns\<close> raises
  \<open>ValueError\<close> on the empty list.
\<close>

function chain_patterns :: "pattern list \<Rightarrow> error + pattern" where
  "chain_patterns patterns =
     (if patterns = [] then Inl ValueError
      else (let patterns_left = butlast patterns; next_one = last patterns
            in if length patterns_left = 0 then Inr next_one
               else (case chain_patterns patterns_left of
                       Inl e \<Rightarrow> Inl e
                     | Inr c \<Rightarrow> Inr (App c next_one))))"
  by pat_completeness auto
termination
  by (relation "measure length") auto

declare chain_patterns.simps [simp del]

text \<open>
  The first statements of \<^verbatim>\<open>convert_cell\<close>: resolve the symbol of the cell's name,
  record the application's symbol as a cell symbol, and register the cell's symbol as
  functional when the application's symbol was declared functional.
\<close>

definition register_cell :: "converter \<Rightarrow> string \<Rightarrow> string \<Rightarrow> pattern \<times> converter" where
  "register_cell st symbol cell_name =
     (case resolve_symbol st cell_name of
        (cell_symbol, st1) \<Rightarrow>
          (let st2 = st1\<lparr>cell_symbols := insert symbol (cell_symbols st1)\<rparr>;
               st3 = (if symbol \<in> raw_functional_symbols st2
                      then st2\<lparr>functional_symbols := insert cell_symbol (functional_symbols st2)\<rparr>
                      else st2)
           in (cell_symbol, st3)))"

text \<open>
  \<^verbatim>\<open>_convert_pattern\<close> with its nested \<^verbatim>\<open>convert_cell\<close>. The converter is threaded
  through in Python's evaluation order; \<open>convert_patterns\<close> is the comprehension over the
  arguments of an application and \<open>convert_cell_args\<close> the loop over the children of a cell.
\<close>

fun convert_pattern :: "converter \<Rightarrow> kore \<Rightarrow> error + (pattern \<times> converter)"
  and convert_patterns :: "converter \<Rightarrow> kore list \<Rightarrow> error + (pattern list \<times> converter)"
  and convert_cell :: "converter \<Rightarrow> string \<Rightarrow> Sort list \<Rightarrow> kore list \<Rightarrow> error + (pattern \<times> converter)"
  and convert_cell_args :: "converter \<Rightarrow> kore list \<Rightarrow> error + (pattern list \<times> converter)"
where
  "convert_pattern st (Kore_Rewrites srt left right) =
     (case resolve_symbol_sort st srt of (rewrite_sort_symbol, st1) \<Rightarrow>
       (case convert_pattern st1 left of Inl e \<Rightarrow> Inl e | Inr (left_rw_pattern, st2) \<Rightarrow>
         (case convert_pattern st2 right of Inl e \<Rightarrow> Inl e | Inr (right_rw_pattern, st3) \<Rightarrow>
            Inr (KoreRewrites rewrite_sort_symbol left_rw_pattern right_rw_pattern, st3))))"
| "convert_pattern st (Kore_And srt left right) =
     (case resolve_symbol_sort st srt of (and_sort_symbol, st1) \<Rightarrow>
       (case convert_pattern st1 left of Inl e \<Rightarrow> Inl e | Inr (left_and_pattern, st2) \<Rightarrow>
         (case convert_pattern st2 right of Inl e \<Rightarrow> Inl e | Inr (right_and_pattern, st3) \<Rightarrow>
            Inr (KoreAnd and_sort_symbol left_and_pattern right_and_pattern, st3))))"
| "convert_pattern st (Kore_Or srt left right) =
     (case resolve_symbol_sort st srt of (or_sort_symbol, st1) \<Rightarrow>
       (case convert_pattern st1 left of Inl e \<Rightarrow> Inl e | Inr (left_or_pattern, st2) \<Rightarrow>
         (case convert_pattern st2 right of Inl e \<Rightarrow> Inl e | Inr (right_or_pattern, st3) \<Rightarrow>
            Inr (KoreOr or_sort_symbol left_or_pattern right_or_pattern, st3))))"
| "convert_pattern st (Kore_App symbol sorts args) =
     (if symbol \<in> cell_symbols st then convert_cell st symbol sorts args
      else
        (case resolve_symbol st symbol of (app_symbol, st1) \<Rightarrow>
          (case convert_patterns st1 args of Inl e \<Rightarrow> Inl e | Inr (args_patterns, st2) \<Rightarrow>
            (case resolve_sorts st2 sorts of (sorts_patterns, st3) \<Rightarrow>
              (case chain_patterns (app_symbol # args_patterns) of
                 Inl e \<Rightarrow> Inl e
               | Inr args_chain \<Rightarrow>
                   (let application_sorts =
                          (if sorts_patterns \<noteq> [] then sorts_patterns else [prop_Top])
                    in if is_App args_chain \<or> is_Symbol args_chain
                       then Inr (KoreApplies application_sorts args_chain, st3)
                       else Inl AssertionError))))))"
| "convert_pattern st (Kore_EVar name srt) = Inr (resolve_metavar st name)"
| "convert_pattern st (Kore_Top srt) =
     (case resolve_symbol_sort st srt of (top_sort_symbol, st1) \<Rightarrow>
        Inr (KoreTop top_sort_symbol, st1))"
| "convert_pattern st (Kore_DV srt v) =
     (case resolve_symbol_sort st srt of (dv_sort_symbol, st1) \<Rightarrow>
       (case resolve_symbol st1 v of (value_symbol, st2) \<Rightarrow>
          Inr (KoreDv dv_sort_symbol value_symbol, st2)))"
| "convert_pattern st Kore_Other = Inl NotImplementedError"
| "convert_patterns st [] = Inr ([], st)"
| "convert_patterns st (arg # args) =
     (case convert_pattern st arg of Inl e \<Rightarrow> Inl e | Inr (p, st1) \<Rightarrow>
       (case convert_patterns st1 args of Inl e \<Rightarrow> Inl e | Inr (ps, st2) \<Rightarrow>
          Inr (p # ps, st2)))"
| "convert_cell st symbol sorts args =
     (case is_cell_symbol symbol of
        None \<Rightarrow> Inl AssertionError
      | Some cell_name \<Rightarrow>
          (case register_cell st symbol cell_name of (cell_symbol, st3) \<Rightarrow>
             if length args = 0 then Inr (cell_symbol, st3)
             else
               (case convert_cell_args st3 args of
                  Inl e \<Rightarrow> Inl e
                | Inr (chained_cell_patterns, st4) \<Rightarrow>
                    (case chain_patterns chained_cell_patterns of
                       Inl e \<Rightarrow> Inl e
                     | Inr cells_chained \<Rightarrow>
                         if \<exists>x \<in> set chained_cell_patterns. is_Cell x
                         then (if is_App cells_chained
                               then Inr (KoreNestedCells cell_symbol cells_chained, st4)
                               else Inl AssertionError)
                         else Inr (Cell cell_symbol cells_chained, st4)))))"
| "convert_cell_args st [] = Inr ([], st)"
| "convert_cell_args st (Kore_App symbol sorts args # kore_patterns) =
     (case (if is_cell_symbol symbol \<noteq> None then convert_cell st symbol sorts args
            else convert_pattern st (Kore_App symbol sorts args)) of
        Inl e \<Rightarrow> Inl e
      | Inr (p, st1) \<Rightarrow>
          (case convert_cell_args st1 kore_patterns of
             Inl e \<Rightarrow> Inl e
           | Inr (ps, st2) \<Rightarrow> Inr (p # ps, st2)))"
| "convert_cell_args st (kore_pattern # kore_patterns) =
     (case convert_pattern st kore_pattern of
        Inl e \<Rightarrow> Inl e
      | Inr (p, st1) \<Rightarrow>
          (case convert_cell_args st1 kore_patterns of
             Inl e \<Rightarrow> Inl e
           | Inr (ps, st2) \<Rightarrow> Inr (p # ps, st2)))"

text \<open>
  \<^verbatim>\<open>_convert_axiom\<close>: a cached axiom is returned as it is. Otherwise a \<^verbatim>\<open>Rewrites\<close>
  axiom must have a conjunction on both sides (two assertions) and is converted from the
  left conjuncts only; any other axiom is converted whole. The result is cached.
\<close>

definition preprocess_axiom :: "kore \<Rightarrow> error + (AxiomType \<times> kore)" where
  "preprocess_axiom p =
     (case p of
        Kore_Rewrites srt left right \<Rightarrow>
          (case left of
             Kore_And sl left_left left_right \<Rightarrow>
               (case right of
                  Kore_And sr right_left right_right \<Rightarrow>
                    Inr (RewriteRule, Kore_Rewrites srt left_left right_left)
                | _ \<Rightarrow> Inl AssertionError)
           | _ \<Rightarrow> Inl AssertionError)
      | _ \<Rightarrow> Inr (Unclassified, p))"

definition convert_axiom :: "converter \<Rightarrow> KoreAxiom \<Rightarrow> error + (ConvertedAxiom \<times> converter)" where
  "convert_axiom st kore_axiom =
     (case axioms_cache st kore_axiom of
        Some cached \<Rightarrow> Inr (cached, st)
      | None \<Rightarrow>
          (case preprocess_axiom (axiom_pattern kore_axiom) of
             Inl e \<Rightarrow> Inl e
           | Inr (axiom_type, preprocessed_pattern) \<Rightarrow>
               (case convert_pattern st preprocessed_pattern of
                  Inl e \<Rightarrow> Inl e
                | Inr (converted_pattern, st1) \<Rightarrow>
                    (let converted_axiom = ConvertedAxiom axiom_type converted_pattern
                     in Inr (converted_axiom,
                             st1\<lparr>axioms_cache := (axioms_cache st1)(kore_axiom \<mapsto> converted_axiom)\<rparr>)))))"

text \<open>\<^verbatim>\<open>retrieve_axiom_for_ordinal\<close>: an ordinal out of range is an assertion failure.\<close>

definition retrieve_axiom_for_ordinal :: "converter \<Rightarrow> nat \<Rightarrow> error + (ConvertedAxiom \<times> converter)" where
  "retrieve_axiom_for_ordinal st ordinal =
     (if ordinal < length (axioms_to_choose_from st)
      then convert_axiom st (axioms_to_choose_from st ! ordinal)
      else Inl AssertionError)"

text \<open>
  \<^verbatim>\<open>_construct_subst_axioms\<close>, over the values of the hint's substitution in the
  dictionary's order: the head of every substituted pattern must be a \<^verbatim>\<open>Symbol\<close> that is
  registered as functional.
\<close>

fun construct_subst_axioms_loop ::
  "converter \<Rightarrow> pattern list \<Rightarrow> ConvertedAxiom list \<Rightarrow> error + ConvertedAxiom list" where
  "construct_subst_axioms_loop st [] subst_axioms = Inr subst_axioms"
| "construct_subst_axioms_loop st (p # ps) subst_axioms =
     (case deconstruct_nary_application p of
        (symbol, args) \<Rightarrow>
          if \<not> is_Symbol symbol then Inl AssertionError
          else if symbol \<notin> functional_symbols st then Inl AssertionError
          else
            (let converted_pattern =
                   Exists 0 (prop_And (Implies (EVar 0) p) (Implies p (EVar 0)))
             in construct_subst_axioms_loop st ps
                  (subst_axioms @ [ConvertedAxiom FunctionalSymbol converted_pattern])))"

definition construct_subst_axioms ::
  "converter \<Rightarrow> (nat \<times> pattern) list \<Rightarrow> error + ConvertedAxiom list" where
  "construct_subst_axioms st substitutions =
     construct_subst_axioms_loop st (map snd substitutions) []"

text \<open>
  The two static passes of \<^verbatim>\<open>KoreConverter.__init__\<close> over the modules of the definition,
  and the converter it creates.
\<close>

datatype SymbolDecl = SymbolDecl (decl_symbol_name: string) (decl_attrs: "kore list")

datatype Module = Module (symbol_decls: "SymbolDecl list") (module_axioms: "KoreAxiom list")

fun is_functional_attr :: "kore \<Rightarrow> bool" where
  "is_functional_attr (Kore_App symbol sorts args) = (symbol = ''functional'')"
| "is_functional_attr _ = False"

definition collect_functional_symbols :: "Module list \<Rightarrow> string set" where
  "collect_functional_symbols modules =
     set (map decl_symbol_name
            (filter (\<lambda>d. \<exists>attr \<in> set (decl_attrs d). is_functional_attr attr)
                    (concat (map symbol_decls modules))))"

definition retrieve_axioms :: "Module list \<Rightarrow> KoreAxiom list" where
  "retrieve_axioms modules = concat (map module_axioms modules)"

definition KoreConverter :: "Module list \<Rightarrow> converter" where
  "KoreConverter modules =
     \<lparr>symbols = Map.empty,
      metavars = [],
      axioms_to_choose_from = retrieve_axioms modules,
      axioms_cache = Map.empty,
      raw_functional_symbols = collect_functional_symbols modules,
      functional_symbols = {},
      cell_symbols = {GENERATED_TOP_SYMBOL}\<rparr>"

section \<open>Serialization (\<^verbatim>\<open>Propositional.serialize\<close>)\<close>

definition Propositional_claims :: "pattern list" where
  "Propositional_claims = [phi0_implies_phi0, top_pattern]"

definition Propositional_proofs :: "Proof list" where
  "Propositional_proofs = [imp_reflexivity, top_intro]"

text \<open>
  The two output streams are kept as the sequence of items written to them, and a
  back-reference table as the list of entries saved so far.
\<close>

type_synonym memory = "(bool \<times> pattern) list"

text \<open>
  Modelled from the spec: \<^verbatim>\<open>Pattern.serialize\<close> of the absent module
  \<^verbatim>\<open>proof_generation/proof.py\<close> writes the pattern to the stream and enters it in the
  back-reference table unless it is already there.
\<close>

definition Pattern_serialize ::
  "pattern \<Rightarrow> memory \<Rightarrow> pattern list \<Rightarrow> memory \<times> pattern list" where
  "Pattern_serialize p mem out =
     ((if (True, p) \<in> set mem then mem else mem @ [(True, p)]), out @ [p])"

text \<open>
  Modelled from the spec: \<^verbatim>\<open>Proof.serialize\<close> of the absent module
  \<^verbatim>\<open>proof_generation/proof.py\<close> writes the proof to the stream; a proof without a
  conclusion cannot be written; a proof whose conclusion is the next unpublished claim
  publishes it, which consumes that claim from the list it was handed.
\<close>

definition Proof_serialize ::
  "Proof \<Rightarrow> memory \<Rightarrow> pattern list \<Rightarrow> Proof list
     \<Rightarrow> error + (memory \<times> pattern list \<times> Proof list)" where
  "Proof_serialize p mem claims out =
     (case conclusion p of
        Inl e \<Rightarrow> Inl e
      | Inr c \<Rightarrow>
          Inr ((if (False, c) \<in> set mem then mem else mem @ [(False, c)]),
               (case claims of [] \<Rightarrow> [] | x # xs \<Rightarrow> if x = c then xs else x # xs),
               out @ [p]))"

text \<open>The first loop of \<^verbatim>\<open>serialize\<close>, called on \<^verbatim>\<open>reversed(self.claims())\<close>.\<close>

fun serialize_claims :: "pattern list \<Rightarrow> memory \<Rightarrow> pattern list \<Rightarrow> memory \<times> pattern list" where
  "serialize_claims [] claims_memory claims_out = (claims_memory, claims_out)"
| "serialize_claims (claim # rest) claims_memory claims_out =
     (case Pattern_serialize claim claims_memory claims_out of
        (mem1, out1) \<Rightarrow> serialize_claims rest mem1 out1)"

text \<open>The second loop, which hands every proof the list of claims still to publish.\<close>

fun serialize_proofs ::
  "Proof list \<Rightarrow> memory \<Rightarrow> pattern list \<Rightarrow> Proof list
     \<Rightarrow> error + (memory \<times> pattern list \<times> Proof list)" where
  "serialize_proofs [] proofs_memory claims proofs_out = Inr (proofs_memory, claims, proofs_out)"
| "serialize_proofs (prf # rest) proofs_memory claims proofs_out =
     (case Proof_serialize prf proofs_memory claims proofs_out of
        Inl e \<Rightarrow> Inl e
      | Inr (mem1, claims1, out1) \<Rightarrow> serialize_proofs rest mem1 claims1 out1)"

text \<open>
  \<^verbatim>\<open>serialize\<close>, for the claims and proofs that the methods \<^verbatim>\<open>claims()\<close> and
  \<^verbatim>\<open>proofs()\<close> of the proof expression return; the result is the pair of streams.
\<close>

definition serialize :: "pattern list \<Rightarrow> Proof list \<Rightarrow> error + (pattern list \<times> Proof list)" where
  "serialize the_claims the_proofs =
     (case serialize_claims (rev the_claims) [] [] of
        (claims_memory, claims_out) \<Rightarrow>
          (case serialize_proofs the_proofs [] the_claims [] of
             Inl e \<Rightarrow> Inl e
           | Inr (proofs_memory, claims, proofs_out) \<Rightarrow>
               if claims = [] then Inr (claims_out, proofs_out) else Inl AssertionError))"

section \<open>The execution proof engine (\<^verbatim>\<open>execution_proof_generation.py\<close>)\<close>

type_synonym Location = "nat list"

record SimplificationInfo =
  location :: Location
  initial_pattern :: pattern
  simplification_result :: pattern
  simplifications_left :: int

text \<open>
  Modelled from the spec: the rules and the registry of the absent module
  \<^verbatim>\<open>language_semantics\<close>, as far as the engine reads them. A rule has a pattern; an
  equational rule also has a right side and the substitutions of its requires clause. The
  registry has its notations, \<^verbatim>\<open>get_axiom\<close> (the rule of an ordinal),
  \<^verbatim>\<open>count_simplifications\<close> (the number of nested redexes of a pattern) and
  \<^verbatim>\<open>resolve_to_ksymbol\<close>, which finds the declared symbol of a pattern symbol together
  with its functional flag.
\<close>

datatype KAxiom =
    KRewritingRule (rule_pattern: pattern)
  | KEquationalRule (rule_pattern: pattern) (rule_right: pattern)
      (substitutions_from_requires: "(nat \<times> pattern) list")

datatype KSymbol = KSymbol (ksymbol_name: string) (is_functional: bool)

record LanguageSemantics =
  ls_notations :: "pattern list"
  get_axiom :: "nat \<Rightarrow> error + KAxiom"
  count_simplifications :: "pattern \<Rightarrow> int"
  resolve_to_ksymbol :: "pattern \<Rightarrow> KSymbol option"

text \<open>
  The state of \<^verbatim>\<open>SimplificationVisitor\<close>. The stack grows at the end of the list, as a
  Python list does. \<open>v_curr_config\<close> is the attribute \<^verbatim>\<open>_curr_config\<close>, which
  \<^verbatim>\<open>simplified_configuration\<close> returns; \<open>v_attr_curr_config\<close> is the attribute
  \<^verbatim>\<open>curr_config\<close>, which only \<^verbatim>\<open>__exit__\<close> assigns and which does not exist before.
\<close>

record visitor =
  v_language_semantics :: LanguageSemantics
  v_curr_config :: pattern
  simplification_stack :: "SimplificationInfo list"
  in_simplification :: bool
  v_attr_curr_config :: "pattern option"

definition SimplificationVisitor :: "LanguageSemantics \<Rightarrow> pattern \<Rightarrow> visitor" where
  "SimplificationVisitor ls init_config =
     \<lparr>v_language_semantics = ls, v_curr_config = init_config, simplification_stack = [],
      in_simplification = False, v_attr_curr_config = None\<rparr>"

definition simplified_configuration :: "visitor \<Rightarrow> pattern" where
  "simplified_configuration v = v_curr_config v"

definition update_configuration :: "visitor \<Rightarrow> pattern \<Rightarrow> error + visitor" where
  "update_configuration v new_current_configuration =
     (if simplification_stack v \<noteq> [] then Inl AssertionError
      else if in_simplification v then Inl AssertionError
      else Inr (v\<lparr>v_curr_config := new_current_configuration\<rparr>))"

text \<open>The two static methods are stubs in the source: both raise.\<close>

definition get_subpattern :: "Location \<Rightarrow> pattern \<Rightarrow> error + pattern" where
  "get_subpattern loc p = Inl NotImplementedError"

definition update_subterm :: "Location \<Rightarrow> pattern \<Rightarrow> pattern \<Rightarrow> error + pattern" where
  "update_subterm loc p plug = Inl NotImplementedError"

text \<open>
  \<^verbatim>\<open>__enter__\<close> and \<^verbatim>\<open>__exit__\<close>. The drain loop of \<^verbatim>\<open>__exit__\<close> is given the
  implementation of \<^verbatim>\<open>update_subterm\<close> it calls through \<^verbatim>\<open>self\<close>; the source's own
  is the stub above. The loop decrements the count of the new top frame before it calls
  \<^verbatim>\<open>update_subterm\<close>, and with an empty stack it assigns the attribute
  \<^verbatim>\<open>curr_config\<close>.
\<close>

definition visitor_enter :: "visitor \<Rightarrow> error + visitor" where
  "visitor_enter v =
     (if in_simplification v then Inl AssertionError
      else Inr (v\<lparr>in_simplification := True\<rparr>))"

function visitor_exit ::
  "(Location \<Rightarrow> pattern \<Rightarrow> pattern \<Rightarrow> error + pattern) \<Rightarrow> visitor \<Rightarrow> error + visitor" where
  "visitor_exit upd v =
     (if simplification_stack v \<noteq> [] \<and>
         simplifications_left (last (simplification_stack v)) = 0
      then
        (let exhausted_info = last (simplification_stack v);
             stack1 = butlast (simplification_stack v)
         in if stack1 \<noteq> []
            then
              (let last_info =
                     (last stack1)\<lparr>simplifications_left := simplifications_left (last stack1) - 1\<rparr>
               in case upd (location exhausted_info) (simplification_result last_info)
                        (simplification_result exhausted_info) of
                    Inl e \<Rightarrow> Inl e
                  | Inr r \<Rightarrow>
                      visitor_exit upd
                        (v\<lparr>simplification_stack :=
                              butlast stack1 @ [last_info\<lparr>simplification_result := r\<rparr>]\<rparr>))
            else
              (case upd (location exhausted_info) (v_curr_config v)
                      (simplification_result exhausted_info) of
                 Inl e \<Rightarrow> Inl e
               | Inr r \<Rightarrow>
                   visitor_exit upd
                     (v\<lparr>simplification_stack := stack1, v_attr_curr_config := Some r\<rparr>)))
      else Inr v)"
  by pat_completeness auto
termination
  by (relation "measure (\<lambda>(upd, v). length (simplification_stack v))")
     (auto simp flip: length_greater_0_conv)

declare visitor_exit.simps [simp del]

text \<open>
  Modelled from the spec: \<^verbatim>\<open>Pattern.apply_esubst\<close> of the absent module
  \<^verbatim>\<open>proof_generation/pattern.py\<close> replaces the free occurrences of an element
  variable by the plug.
\<close>

fun apply_esubst :: "pattern \<Rightarrow> nat \<Rightarrow> pattern \<Rightarrow> pattern" where
  "apply_esubst (Symbol n) x plug = Symbol n"
| "apply_esubst (EVar n) x plug = (if n = x then plug else EVar n)"
| "apply_esubst (SVar n) x plug = SVar n"
| "apply_esubst (MetaVar n) x plug = MetaVar n"
| "apply_esubst (App l r) x plug = App (apply_esubst l x plug) (apply_esubst r x plug)"
| "apply_esubst (Implies l r) x plug = Implies (apply_esubst l x plug) (apply_esubst r x plug)"
| "apply_esubst (Exists y b) x plug =
     (if y = x then Exists y b else Exists y (apply_esubst b x plug))"
| "apply_esubst (Mu y b) x plug = Mu y (apply_esubst b x plug)"
| "apply_esubst (Notation n args) x plug = Notation n (map (\<lambda>a. apply_esubst a x plug) args)"

text \<open>\<^verbatim>\<open>apply_substitutions\<close>: one substitution after the other, in the dictionary's order.\<close>

fun apply_substitutions :: "pattern \<Rightarrow> (nat \<times> pattern) list \<Rightarrow> pattern" where
  "apply_substitutions p [] = p"
| "apply_substitutions p ((evar_name, plug) # substitutions) =
     apply_substitutions (apply_esubst p evar_name plug) substitutions"

text \<open>
  \<^verbatim>\<open>__call__\<close>: after the assertion, its first statement resolves the sub-pattern with
  \<^verbatim>\<open>get_subpattern\<close>; then it takes the rule of the ordinal, which must be equational,
  applies the two substitutions to the rule's right side, counts the simplifications left
  and pushes the new frame.
\<close>

definition visitor_call ::
  "visitor \<Rightarrow> nat \<Rightarrow> (nat \<times> pattern) list \<Rightarrow> Location \<Rightarrow> error + visitor" where
  "visitor_call v ordinal substitution loc =
     (if \<not> in_simplification v then Inl AssertionError
      else
        (case (if simplification_stack v = [] then get_subpattern loc (v_curr_config v)
               else get_subpattern loc (simplification_result (last (simplification_stack v)))) of
           Inl e \<Rightarrow> Inl e
         | Inr sub_pattern \<Rightarrow>
             (case get_axiom (v_language_semantics v) ordinal of
                Inl e \<Rightarrow> Inl e
              | Inr (KRewritingRule pat) \<Rightarrow> Inl AssertionError
              | Inr (KEquationalRule pat rhs base_substitutions) \<Rightarrow>
                  (let simplified_rhs =
                         apply_substitutions (apply_substitutions rhs base_substitutions)
                           substitution;
                       left_count =
                         count_simplifications (v_language_semantics v) simplified_rhs;
                       new_info =
                         \<lparr>location = loc, initial_pattern = sub_pattern,
                          simplification_result = simplified_rhs,
                          simplifications_left = left_count\<rparr>
                   in Inr (v\<lparr>simplification_stack := simplification_stack v @ [new_info]\<rparr>)))))"

text \<open>
  Modelled from the spec: \<^verbatim>\<open>Pattern.instantiate\<close> on a substitution (module
  \<^verbatim>\<open>proof_generation/pattern.py\<close> is absent) replaces every metavariable that the
  substitution maps, all at once.
\<close>

fun pattern_instantiate :: "(nat \<times> pattern) list \<Rightarrow> pattern \<Rightarrow> pattern" where
  "pattern_instantiate delta (Symbol n) = Symbol n"
| "pattern_instantiate delta (EVar n) = EVar n"
| "pattern_instantiate delta (SVar n) = SVar n"
| "pattern_instantiate delta (MetaVar n) =
     (case map_of delta n of Some plug \<Rightarrow> plug | None \<Rightarrow> MetaVar n)"
| "pattern_instantiate delta (App l r) =
     App (pattern_instantiate delta l) (pattern_instantiate delta r)"
| "pattern_instantiate delta (Implies l r) =
     Implies (pattern_instantiate delta l) (pattern_instantiate delta r)"
| "pattern_instantiate delta (Exists x b) = Exists x (pattern_instantiate delta b)"
| "pattern_instantiate delta (Mu x b) = Mu x (pattern_instantiate delta b)"
| "pattern_instantiate delta (Notation n args) =
     Notation n (map (pattern_instantiate delta) args)"

text \<open>
  Modelled from the spec: \<^verbatim>\<open>kore_rewrites.assert_matches\<close> of the absent module
  \<^verbatim>\<open>proofs/kore.py\<close> accepts a rewrite relation only and returns its sort, left side
  and right side.
\<close>

definition kore_rewrites_assert_matches :: "pattern \<Rightarrow> error + (pattern \<times> pattern \<times> pattern)" where
  "kore_rewrites_assert_matches p =
     (case p of
        Notation n args \<Rightarrow>
          (if n = ''kore-rewrites''
           then (case args of [s, l, r] \<Rightarrow> Inr (s, l, r) | _ \<Rightarrow> Inl AssertionError)
           else Inl AssertionError)
      | _ \<Rightarrow> Inl AssertionError)"

text \<open>
  Modelled from the spec: \<^verbatim>\<open>functional\<close> of the absent module
  \<^verbatim>\<open>proofs/definedness.py\<close>: there is a value equal, in both directions, to the pattern.
\<close>

definition functional :: "pattern \<Rightarrow> pattern" where
  "functional p = Exists 0 (prop_And (Implies (EVar 0) p) (Implies p (EVar 0)))"

text \<open>
  Modelled from the spec: the proof thunks of the absent module
  \<^verbatim>\<open>proof_generation/proof.py\<close> that the engine builds: an axiom loaded by its pattern
  and a proof instantiated by a substitution, which proves the instantiated conclusion.
\<close>

datatype ProofThunk = LoadAxiom pattern | DynamicInst ProofThunk "(nat \<times> pattern) list"

fun thunk_conclusion :: "ProofThunk \<Rightarrow> pattern" where
  "thunk_conclusion (LoadAxiom p) = p"
| "thunk_conclusion (DynamicInst t delta) = pattern_instantiate delta (thunk_conclusion t)"

text \<open>
  Modelled from the spec: the record of the absent class \<^verbatim>\<open>proof.ProofExp\<close>: its
  notations, the axioms asserted, the claims and their proofs, each list in the order of
  the calls; a new proof expression has no axioms, no claims and no proofs.
\<close>

record ProofExp =
  notations :: "pattern list"
  axioms :: "pattern list"
  claims :: "pattern list"
  proof_expressions :: "ProofThunk list"

definition ProofExp_init :: "pattern list \<Rightarrow> ProofExp" where
  "ProofExp_init ns = \<lparr>notations = ns, axioms = [], claims = [], proof_expressions = []\<rparr>"

text \<open>\<^verbatim>\<open>ExecutionProofExp\<close> extends the proof expression.\<close>

record ExecutionProofExp = ProofExp +
  init_config :: pattern
  curr_config :: pattern
  language_semantics :: LanguageSemantics
  simplification_visitor :: visitor

definition ExecutionProofExp_init :: "LanguageSemantics \<Rightarrow> pattern \<Rightarrow> ExecutionProofExp" where
  "ExecutionProofExp_init ls init =
     \<lparr>notations = ls_notations ls, axioms = [], claims = [], proof_expressions = [],
      init_config = init, curr_config = init, language_semantics = ls,
      simplification_visitor = SimplificationVisitor ls init\<rparr>"

text \<open>
  \<^verbatim>\<open>ExecutionProofExp.collect_functional_axioms\<close>, over the values of the substitution:
  three assertions guard every substituted pattern.
\<close>

fun collect_functional_axioms_loop ::
  "LanguageSemantics \<Rightarrow> pattern list \<Rightarrow> ConvertedAxiom list \<Rightarrow> error + ConvertedAxiom list" where
  "collect_functional_axioms_loop ls [] subst_axioms = Inr subst_axioms"
| "collect_functional_axioms_loop ls (p # ps) subst_axioms =
     (case deconstruct_nary_application p of
        (symb, args) \<Rightarrow>
          if \<not> is_Symbol symb then Inl AssertionError
          else
            (case resolve_to_ksymbol ls symb of
               None \<Rightarrow> Inl AssertionError
             | Some k_sym \<Rightarrow>
                 if \<not> is_functional k_sym then Inl AssertionError
                 else collect_functional_axioms_loop ls ps
                        (subst_axioms @ [ConvertedAxiom FunctionalSymbol (functional p)])))"

definition collect_functional_axioms ::
  "LanguageSemantics \<Rightarrow> (nat \<times> pattern) list \<Rightarrow> error + ConvertedAxiom list" where
  "collect_functional_axioms ls substitutions =
     collect_functional_axioms_loop ls (map snd substitutions) []"

text \<open>
  \<^verbatim>\<open>add_assumptions_for_rewrite_step\<close> and \<^verbatim>\<open>rewrite_event\<close>. Both return the engine
  as the call leaves it, also when an assertion fails, next to the error or the result.
\<close>

definition add_assumptions_for_rewrite_step ::
  "KAxiom \<Rightarrow> (nat \<times> pattern) list \<Rightarrow> ExecutionProofExp \<Rightarrow> (error + unit) \<times> ExecutionProofExp" where
  "add_assumptions_for_rewrite_step rule substitutions st =
     (case collect_functional_axioms (language_semantics st) substitutions of
        Inl e \<Rightarrow> (Inl e, st)
      | Inr func_axioms \<Rightarrow>
          (Inr (), st\<lparr>axioms := axioms st @ map pattern func_axioms @ [rule_pattern rule]\<rparr>))"

definition rewrite_event ::
  "KAxiom \<Rightarrow> (nat \<times> pattern) list \<Rightarrow> ExecutionProofExp \<Rightarrow> (error + ProofThunk) \<times> ExecutionProofExp" where
  "rewrite_event rule substitution st =
     (let instantiated_axiom = pattern_instantiate substitution (rule_pattern rule)
      in case kore_rewrites_assert_matches instantiated_axiom of
           Inl e \<Rightarrow> (Inl e, st)
         | Inr (s, lhs, rhs) \<Rightarrow>
             if lhs \<noteq> curr_config st then (Inl AssertionError, st)
             else
               (case add_assumptions_for_rewrite_step rule substitution st of
                  (Inl e, st1) \<Rightarrow> (Inl e, st1)
                | (Inr u, st1) \<Rightarrow>
                    (let st2 = st1\<lparr>claims := claims st1 @ [instantiated_axiom]\<rparr>;
                         prf = DynamicInst (LoadAxiom (rule_pattern rule)) substitution;
                         st3 = st2\<lparr>proof_expressions := proof_expressions st2 @ [prf]\<rparr>;
                         st4 = st3\<lparr>curr_config := rhs\<rparr>
                     in case update_configuration (simplification_visitor st4) (curr_config st4) of
                          Inl e \<Rightarrow> (Inl e, st4)
                        | Inr v \<Rightarrow> (Inr prf, st4\<lparr>simplification_visitor := v\<rparr>))))"

text \<open>
  \<^verbatim>\<open>simplification_event\<close>: the \<^verbatim>\<open>with\<close> statement enters the scope, makes the one
  call and runs \<^verbatim>\<open>__exit__\<close> on every path out of the body; an exception of the body
  propagates unless \<^verbatim>\<open>__exit__\<close> raises one itself.
\<close>

definition simplification_event ::
  "nat \<Rightarrow> (nat \<times> pattern) list \<Rightarrow> Location \<Rightarrow> ExecutionProofExp \<Rightarrow> error + ExecutionProofExp" where
  "simplification_event ordinal substitution loc st =
     (case visitor_enter (simplification_visitor st) of
        Inl e \<Rightarrow> Inl e
      | Inr v0 \<Rightarrow>
          (case visitor_call v0 ordinal substitution loc of
             Inl e \<Rightarrow>
               (case visitor_exit update_subterm v0 of Inl e' \<Rightarrow> Inl e' | Inr v1 \<Rightarrow> Inl e)
           | Inr v1 \<Rightarrow>
               (case visitor_exit update_subterm v1 of
                  Inl e \<Rightarrow> Inl e
                | Inr v2 \<Rightarrow>
                    Inr (st\<lparr>simplification_visitor := v2,
                            curr_config := simplified_configuration v2\<rparr>))))"

text \<open>\<^verbatim>\<open>from_proof_hints\<close>: the loop over the hints, then the choice of the result.\<close>

record RewriteStepExpression =
  hint_axiom :: KAxiom
  configuration_before :: pattern
  substitutions :: "(nat \<times> pattern) list"

datatype ProofExpResult = Plain ProofExp | Execution ExecutionProofExp

fun from_proof_hints_loop ::
  "RewriteStepExpression list \<Rightarrow> LanguageSemantics \<Rightarrow> ExecutionProofExp option
     \<Rightarrow> error + ExecutionProofExp option" where
  "from_proof_hints_loop [] ls proof_expr = Inr proof_expr"
| "from_proof_hints_loop (hint # hints) ls proof_expr =
     (let pe = (case proof_expr of
                  None \<Rightarrow> ExecutionProofExp_init ls (configuration_before hint)
                | Some pe0 \<Rightarrow> pe0)
      in case hint_axiom hint of
           KRewritingRule pat \<Rightarrow>
             (case rewrite_event (hint_axiom hint) (substitutions hint) pe of
                (Inl e, pe1) \<Rightarrow> Inl e
              | (Inr prf, pe1) \<Rightarrow> from_proof_hints_loop hints ls (Some pe1))
         | KEquationalRule pat rhs reqs \<Rightarrow> Inl NotImplementedError)"

definition from_proof_hints ::
  "RewriteStepExpression list \<Rightarrow> LanguageSemantics \<Rightarrow> error + ProofExpResult" where
  "from_proof_hints hints ls =
     (case from_proof_hints_loop hints ls None of
        Inl e \<Rightarrow> Inl e
      | Inr None \<Rightarrow> Inr (Plain (ProofExp_init (ls_notations ls)))
      | Inr (Some proof_expr) \<Rightarrow> Inr (Execution proof_expr))"

section \<open>Grouping of converted axioms\<close>

lemma organize_step_other:
  "kind a \<noteq> k \<Longrightarrow> organize_step m a k = m k"
  by (simp add: organize_step_def setdefault_def Let_def split: option.splits)

lemma organize_step_None:
  "m (kind a) = None \<Longrightarrow> organize_step m a (kind a) = Some [a]"
  by (simp add: organize_step_def setdefault_def Let_def)

lemma organize_step_Some:
  "m (kind a) = Some g \<Longrightarrow>
   organize_step m a (kind a) = Some (if a \<in> set g then g else g @ [a])"
  by (simp add: organize_step_def setdefault_def Let_def)

lemma foldl_organize_step:
  "foldl organize_step m axs k =
     (case m k of
        None \<Rightarrow> (if k \<in> set (map kind axs)
                 then Some (dedup_first [] (filter (\<lambda>a. kind a = k) axs)) else None)
      | Some g \<Rightarrow> Some (g @ dedup_first g (filter (\<lambda>a. kind a = k) axs)))"
proof (induction axs arbitrary: m)
  case Nil
  then show ?case by (simp split: option.splits)
next
  case (Cons a axs)
  show ?case
  proof (cases "kind a = k")
    case False
    then show ?thesis
      using Cons.IH [of "organize_step m a"]
      by (simp add: organize_step_other split: option.splits)
  next
    case True
    show ?thesis
    proof (cases "m k")
      case None
      then have "organize_step m a k = Some [a]"
        using True organize_step_None [of m a] by simp
      then show ?thesis
        using Cons.IH [of "organize_step m a"] None True
        by simp
    next
      case (Some g)
      then have "organize_step m a k = Some (if a \<in> set g then g else g @ [a])"
        using True organize_step_Some [of m a g] by simp
      then show ?thesis
        using Cons.IH [of "organize_step m a"] Some True
        by simp
    qed
  qed
qed

lemma dedup_first_set:
  "set (dedup_first seen xs) = set xs - set seen"
  by (induction seen xs rule: dedup_first.induct) auto

lemma dedup_first_distinct:
  "distinct (dedup_first seen xs)"
  by (induction seen xs rule: dedup_first.induct) (auto simp: dedup_first_set)

text \<open>
  C7. Organizing a list of converted axioms gives, for every axiom kind, the group the
  specification describes: no group when no axiom has that kind; otherwise the axioms of
  that kind in first-seen order with each value kept once. The group is duplicate-free and
  holds exactly the axioms of its kind, and \<open>[A, B, A]\<close> with \<open>A \<noteq> B\<close> of one kind
  organizes to \<open>[A, B]\<close>.
\<close>

theorem organize_axioms_groups:
  "organize_axioms axs k = spec_group axs k
   \<and> (\<forall>g. organize_axioms axs k = Some g \<longrightarrow>
          distinct g \<and> set g = {a \<in> set axs. kind a = k})
   \<and> (A \<noteq> B \<and> kind A = kind B \<longrightarrow> organize_axioms [A, B, A] (kind A) = Some [A, B])
   \<and> (kind A \<noteq> kind B \<longrightarrow>
          organize_axioms [A, B, A] (kind A) = Some [A] \<and>
          organize_axioms [A, B, A] (kind B) = Some [B])"
proof -
  have eq: "organize_axioms xs j = spec_group xs j" for xs j
    by (simp add: organize_axioms_def spec_group_def foldl_organize_step)
  have grp: "\<forall>g. organize_axioms axs k = Some g \<longrightarrow>
          distinct g \<and> set g = {a \<in> set axs. kind a = k}"
    by (auto simp: eq spec_group_def dedup_first_distinct dedup_first_set split: if_splits)
  have same: "A \<noteq> B \<and> kind A = kind B \<longrightarrow> organize_axioms [A, B, A] (kind A) = Some [A, B]"
    by (auto simp: eq spec_group_def)
  have diff: "kind A \<noteq> kind B \<longrightarrow>
          organize_axioms [A, B, A] (kind A) = Some [A] \<and>
          organize_axioms [A, B, A] (kind B) = Some [B]"
    by (auto simp: eq spec_group_def)
  show ?thesis using eq grp same diff by blast
qed

theorem organize_axioms_groups_witness:
  "organize_axioms
     [ConvertedAxiom FunctionalSymbol (Symbol ''a''), ConvertedAxiom FunctionalSymbol (Symbol ''b''),
      ConvertedAxiom FunctionalSymbol (Symbol ''a'')] FunctionalSymbol
   = Some [ConvertedAxiom FunctionalSymbol (Symbol ''a''), ConvertedAxiom FunctionalSymbol (Symbol ''b'')]
   \<and> organize_axioms
     [ConvertedAxiom FunctionalSymbol (Symbol ''a''), ConvertedAxiom HookEvent (Symbol ''a''),
      ConvertedAxiom FunctionalSymbol (Symbol ''a'')] HookEvent
   = Some [ConvertedAxiom HookEvent (Symbol ''a'')]
   \<and> distinct [ConvertedAxiom FunctionalSymbol (Symbol ''a''), ConvertedAxiom FunctionalSymbol (Symbol ''b'')]"
  using organize_axioms_groups
    [of "[ConvertedAxiom FunctionalSymbol (Symbol ''a''), ConvertedAxiom FunctionalSymbol (Symbol ''b''),
          ConvertedAxiom FunctionalSymbol (Symbol ''a'')]" FunctionalSymbol
        "ConvertedAxiom FunctionalSymbol (Symbol ''a'')" "ConvertedAxiom FunctionalSymbol (Symbol ''b'')"]
    organize_axioms_groups
    [of "[]" Unclassified
        "ConvertedAxiom FunctionalSymbol (Symbol ''a'')" "ConvertedAxiom HookEvent (Symbol ''a'')"]
  by (simp add: spec_group_def)

section \<open>Transitivity of implication\<close>

lemma inst_fresh:
  "v \<notin> metavars_of p \<Longrightarrow> inst v plug p = p"
  by (induction p) (auto simp: map_idI)

lemma conclusion_instantiate:
  "conclusion q = Inr c \<Longrightarrow> conclusion (instantiate q v plug) = Inr (inst v plug c)"
proof (induction q arbitrary: c)
  case (ModusPonens l r)
  then show ?case
    by (auto split: sum.splits pattern.splits if_splits)
qed auto

lemma imp_transitivity_result:
  assumes l: "conclusion left = Inr (Implies A B)"
    and r: "conclusion right = Inr (Implies B C)"
  shows "imp_transitivity left right =
           Inr (ModusPonens left
                  (instantiate
                     (ModusPonens
                        (ModusPonens right (Instantiate Prop1 0 (Implies B C)))
                        (Instantiate (Instantiate (Instantiate Prop2 1 B) 2 C) 0 (MetaVar 1)))
                     1 A))"
  using l r
  by (simp add: imp_transitivity_def modus_ponens_def prop1_def prop2_def Let_def)

text \<open>
  C10, as amended. If \<open>left\<close> concludes \<open>A \<rightarrow> B\<close> and \<open>right\<close> concludes \<open>B \<rightarrow> C\<close>,
  where \<open>B\<close> contains none of the metavariables 0, 1, 2 and \<open>C\<close> neither 0 nor 1, then
  \<open>imp_transitivity\<close> returns a proof that concludes \<open>A \<rightarrow> C\<close>. If a conclusion is not an
  implication, or the middle patterns differ, it fails with \<open>AssertionError\<close>.
\<close>

theorem imp_transitivity_conclusion:
  "(conclusion left = Inr (Implies A B) \<and> conclusion right = Inr (Implies B C) \<and>
    metavars_of B \<inter> {0, 1, 2} = {} \<and> metavars_of C \<inter> {0, 1} = {}
      \<longrightarrow> (\<exists>p. imp_transitivity left right = Inr p \<and> conclusion p = Inr (Implies A C)))
   \<and> (conclusion left = Inr lc \<and> (\<forall>a b. lc \<noteq> Implies a b)
      \<longrightarrow> imp_transitivity left right = Inl AssertionError)
   \<and> (conclusion left = Inr (Implies A B) \<and> conclusion right = Inr rc \<and> (\<forall>a b. rc \<noteq> Implies a b)
      \<longrightarrow> imp_transitivity left right = Inl AssertionError)
   \<and> (conclusion left = Inr (Implies A B) \<and> conclusion right = Inr (Implies B' C) \<and> B' \<noteq> B
      \<longrightarrow> imp_transitivity left right = Inl AssertionError)"
proof -
  have ok: "\<exists>p. imp_transitivity left right = Inr p \<and> conclusion p = Inr (Implies A C)"
    if l: "conclusion left = Inr (Implies A B)"
      and r: "conclusion right = Inr (Implies B C)"
      and fB: "metavars_of B \<inter> {0, 1, 2} = {}"
      and fC: "metavars_of C \<inter> {0, 1} = {}"
  proof -
    have B0: "inst 0 p B = B" and B1: "inst (Suc 0) p B = B" and B2: "inst 2 p B = B" for p
      using fB by (auto intro: inst_fresh)
    have C0: "inst 0 p C = C" and C1: "inst (Suc 0) p C = C" for p
      using fC by (auto intro: inst_fresh)
    have s1: "conclusion (ModusPonens right (Instantiate Prop1 0 (Implies B C)))
                = Inr (Implies (MetaVar 1) (Implies B C))"
      using r by simp
    have s2: "conclusion
                (ModusPonens
                   (ModusPonens right (Instantiate Prop1 0 (Implies B C)))
                   (Instantiate (Instantiate (Instantiate Prop2 1 B) 2 C) 0 (MetaVar 1)))
                = Inr (Implies (Implies (MetaVar 1) B) (Implies (MetaVar 1) C))"
      using s1 by (simp add: B0 B2 C0)
    have s3: "conclusion
                (instantiate
                   (ModusPonens
                      (ModusPonens right (Instantiate Prop1 0 (Implies B C)))
                      (Instantiate (Instantiate (Instantiate Prop2 1 B) 2 C) 0 (MetaVar 1)))
                   1 A)
                = Inr (Implies (Implies A B) (Implies A C))"
      using conclusion_instantiate [OF s2, of 1 A] by (simp add: B1 C1)
    show ?thesis
      unfolding imp_transitivity_result [OF l r]
      using s3 l by simp
  qed
  have nl: "imp_transitivity left right = Inl AssertionError"
    if "conclusion left = Inr lc" "\<forall>a b. lc \<noteq> Implies a b"
    using that by (cases lc) (simp_all add: imp_transitivity_def)
  have nr: "imp_transitivity left right = Inl AssertionError"
    if "conclusion left = Inr (Implies A B)" "conclusion right = Inr rc" "\<forall>a b. rc \<noteq> Implies a b"
    using that by (cases rc) (simp_all add: imp_transitivity_def)
  have mm: "imp_transitivity left right = Inl AssertionError"
    if "conclusion left = Inr (Implies A B)" "conclusion right = Inr (Implies B' C)" "B' \<noteq> B"
    using that by (simp add: imp_transitivity_def)
  show ?thesis using ok nl nr mm by blast
qed

theorem imp_transitivity_conclusion_witness:
  "(\<exists>p. imp_transitivity (Assumption (Implies (Symbol ''0'') (Symbol ''1'')))
                          (Assumption (Implies (Symbol ''1'') (Symbol ''2''))) = Inr p
        \<and> conclusion p = Inr (Implies (Symbol ''0'') (Symbol ''2'')))
   \<and> imp_transitivity (Assumption (Symbol ''0'')) (Assumption (Implies (Symbol ''1'') (Symbol ''2'')))
       = Inl AssertionError
   \<and> imp_transitivity (Assumption (Implies (Symbol ''0'') (Symbol ''1''))) (Assumption (Symbol ''2''))
       = Inl AssertionError
   \<and> imp_transitivity (Assumption (Implies (Symbol ''0'') (Symbol ''1'')))
       (Assumption (Implies (Symbol ''3'') (Symbol ''2''))) = Inl AssertionError"
proof -
  have a: "\<exists>p. imp_transitivity (Assumption (Implies (Symbol ''0'') (Symbol ''1'')))
                          (Assumption (Implies (Symbol ''1'') (Symbol ''2''))) = Inr p
        \<and> conclusion p = Inr (Implies (Symbol ''0'') (Symbol ''2''))"
    using imp_transitivity_conclusion
      [of "Assumption (Implies (Symbol ''0'') (Symbol ''1''))" "Symbol ''0''" "Symbol ''1''"
          "Assumption (Implies (Symbol ''1'') (Symbol ''2''))" "Symbol ''2''"]
    by simp
  have b: "imp_transitivity (Assumption (Symbol ''0'')) (Assumption (Implies (Symbol ''1'') (Symbol ''2'')))
       = Inl AssertionError"
    using imp_transitivity_conclusion
      [of "Assumption (Symbol ''0'')" _ _ _ _ "Symbol ''0''"]
    by simp
  have c: "imp_transitivity (Assumption (Implies (Symbol ''0'') (Symbol ''1''))) (Assumption (Symbol ''2''))
       = Inl AssertionError"
    using imp_transitivity_conclusion
      [of "Assumption (Implies (Symbol ''0'') (Symbol ''1''))" "Symbol ''0''" "Symbol ''1''"
          "Assumption (Symbol ''2'')" _ _ "Symbol ''2''"]
    by simp
  have d: "imp_transitivity (Assumption (Implies (Symbol ''0'') (Symbol ''1'')))
       (Assumption (Implies (Symbol ''3'') (Symbol ''2''))) = Inl AssertionError"
    using imp_transitivity_conclusion
      [of "Assumption (Implies (Symbol ''0'') (Symbol ''1''))" "Symbol ''0''" "Symbol ''1''"
          "Assumption (Implies (Symbol ''3'') (Symbol ''2''))" "Symbol ''2''" _ _ "Symbol ''3''"]
    by simp
  show ?thesis using a b c d by blast
qed

text \<open>
  The claim as stated fails: with \<open>C\<close> the metavariable 1, the last instantiation replaces
  it by \<open>A\<close>, and the proof returned concludes \<open>A \<rightarrow> A\<close>.
\<close>

theorem imp_transitivity_counterexample:
  "conclusion (Assumption (Implies (Symbol ''a'') (Symbol ''b''))) = Inr (Implies (Symbol ''a'') (Symbol ''b''))
   \<and> conclusion (Assumption (Implies (Symbol ''b'') (MetaVar 1))) = Inr (Implies (Symbol ''b'') (MetaVar 1))
   \<and> (\<exists>p. imp_transitivity (Assumption (Implies (Symbol ''a'') (Symbol ''b'')))
                            (Assumption (Implies (Symbol ''b'') (MetaVar 1))) = Inr p
          \<and> conclusion p = Inr (Implies (Symbol ''a'') (Symbol ''a''))
          \<and> conclusion p \<noteq> Inr (Implies (Symbol ''a'') (MetaVar 1)))"
  by (simp add: imp_transitivity_def modus_ponens_def prop1_def prop2_def Let_def)

section \<open>Properties of the converter\<close>

lemma construct_subst_axioms_loop_eq:
  "construct_subst_axioms_loop st ps acc =
     (if \<forall>p \<in> set ps. is_Symbol (fst (deconstruct_nary_application p)) \<and>
                        fst (deconstruct_nary_application p) \<in> functional_symbols st
      then Inr (acc @ map (\<lambda>p. ConvertedAxiom FunctionalSymbol
                                 (Exists 0 (prop_And (Implies (EVar 0) p) (Implies p (EVar 0))))) ps)
      else Inl AssertionError)"
  by (induction ps arbitrary: acc) (auto simp: Let_def split: prod.splits)

lemma collect_functional_axioms_loop_eq:
  "collect_functional_axioms_loop ls ps acc =
     (if \<forall>p \<in> set ps. is_Symbol (fst (deconstruct_nary_application p)) \<and>
            (\<exists>k. resolve_to_ksymbol ls (fst (deconstruct_nary_application p)) = Some k \<and> is_functional k)
      then Inr (acc @ map (\<lambda>p. ConvertedAxiom FunctionalSymbol (functional p)) ps)
      else Inl AssertionError)"
  by (induction ps arbitrary: acc) (auto simp: Let_def split: prod.splits option.splits)

lemma chain_patterns_foldl: "chain_patterns (x # xs) = Inr (foldl App x xs)"
proof (induction xs rule: rev_induct)
  case Nil
  show ?case by (simp add: chain_patterns.simps)
next
  case (snoc y ys)
  show ?case
    using snoc by (subst chain_patterns.simps) (simp add: butlast_append)
qed


text \<open>
  C3. Generating the per-step functional-symbol axioms fails (an assertion) as soon as one
  substituted pattern has a head that is not a symbol registered as functional; when every
  head is a registered functional symbol it succeeds and emits, for every substituted
  pattern \<open>p\<close> in order, a \<open>FunctionalSymbol\<close> axiom with the pattern
  \<open>Exists(v, (v \<rightarrow> p) \<and> (p \<rightarrow> v))\<close>. This holds for the converter's
  \<^verbatim>\<open>_construct_subst_axioms\<close> and for the engine's \<^verbatim>\<open>collect_functional_axioms\<close>.
\<close>

theorem functional_substitution_guard:
  "((\<exists>p \<in> set (map snd s).
        \<not> (is_Symbol (fst (deconstruct_nary_application p)) \<and>
           fst (deconstruct_nary_application p) \<in> functional_symbols st))
      \<longrightarrow> construct_subst_axioms st s = Inl AssertionError)
   \<and> ((\<forall>p \<in> set (map snd s).
        is_Symbol (fst (deconstruct_nary_application p)) \<and>
        fst (deconstruct_nary_application p) \<in> functional_symbols st)
      \<longrightarrow> construct_subst_axioms st s =
            Inr (map (\<lambda>p. ConvertedAxiom FunctionalSymbol
                            (Exists 0 (prop_And (Implies (EVar 0) p) (Implies p (EVar 0)))))
                     (map snd s)))
   \<and> ((\<exists>p \<in> set (map snd s).
        \<not> (is_Symbol (fst (deconstruct_nary_application p)) \<and>
           (\<exists>k. resolve_to_ksymbol ls (fst (deconstruct_nary_application p)) = Some k \<and>
                is_functional k)))
      \<longrightarrow> collect_functional_axioms ls s = Inl AssertionError)
   \<and> ((\<forall>p \<in> set (map snd s).
        is_Symbol (fst (deconstruct_nary_application p)) \<and>
        (\<exists>k. resolve_to_ksymbol ls (fst (deconstruct_nary_application p)) = Some k \<and>
             is_functional k))
      \<longrightarrow> collect_functional_axioms ls s =
            Inr (map (\<lambda>p. ConvertedAxiom FunctionalSymbol
                            (Exists 0 (prop_And (Implies (EVar 0) p) (Implies p (EVar 0)))))
                     (map snd s)))"
  unfolding construct_subst_axioms_def collect_functional_axioms_def
    construct_subst_axioms_loop_eq collect_functional_axioms_loop_eq functional_def
  by auto

theorem functional_substitution_guard_witness:
  "construct_subst_axioms ((KoreConverter [])\<lparr>functional_symbols := {Symbol ''f''}\<rparr>)
     [(0, Symbol ''g'')] = Inl AssertionError
   \<and> construct_subst_axioms ((KoreConverter [])\<lparr>functional_symbols := {Symbol ''f''}\<rparr>)
       [(0, App (Symbol ''f'') (Symbol ''a''))]
     = Inr [ConvertedAxiom FunctionalSymbol
              (Exists 0 (prop_And (Implies (EVar 0) (App (Symbol ''f'') (Symbol ''a'')))
                                  (Implies (App (Symbol ''f'') (Symbol ''a'')) (EVar 0))))]
   \<and> collect_functional_axioms
       \<lparr>ls_notations = [], get_axiom = (\<lambda>n. Inl AssertionError),
            count_simplifications = (\<lambda>p. 0),
        resolve_to_ksymbol = (\<lambda>p. if p = Symbol ''f'' then Some (KSymbol ''f'' True) else None)\<rparr>
       [(0, Symbol ''g'')] = Inl AssertionError
   \<and> collect_functional_axioms
       \<lparr>ls_notations = [], get_axiom = (\<lambda>n. Inl AssertionError),
            count_simplifications = (\<lambda>p. 0),
        resolve_to_ksymbol = (\<lambda>p. if p = Symbol ''f'' then Some (KSymbol ''f'' True) else None)\<rparr>
       [(0, App (Symbol ''f'') (Symbol ''a''))]
     = Inr [ConvertedAxiom FunctionalSymbol
              (Exists 0 (prop_And (Implies (EVar 0) (App (Symbol ''f'') (Symbol ''a'')))
                                  (Implies (App (Symbol ''f'') (Symbol ''a'')) (EVar 0))))]"
  using functional_substitution_guard
      [of "[(0, Symbol ''g'')]" "(KoreConverter [])\<lparr>functional_symbols := {Symbol ''f''}\<rparr>"
          "\<lparr>ls_notations = [], get_axiom = (\<lambda>n. Inl AssertionError),
            count_simplifications = (\<lambda>p. 0),
            resolve_to_ksymbol = (\<lambda>p. if p = Symbol ''f'' then Some (KSymbol ''f'' True) else None)\<rparr>"]
    functional_substitution_guard
      [of "[(0, App (Symbol ''f'') (Symbol ''a''))]"
          "(KoreConverter [])\<lparr>functional_symbols := {Symbol ''f''}\<rparr>"
          "\<lparr>ls_notations = [], get_axiom = (\<lambda>n. Inl AssertionError),
            count_simplifications = (\<lambda>p. 0),
            resolve_to_ksymbol = (\<lambda>p. if p = Symbol ''f'' then Some (KSymbol ''f'' True) else None)\<rparr>"]
  by simp

text \<open>
  C8. Axiom conversion is idempotent: once an axiom has been converted, converting it again
  returns the cached converted axiom and leaves the converter, its cache included, as it
  is, so the cache does not grow.
\<close>

theorem convert_axiom_idempotent:
  "convert_axiom st kore_axiom = Inr (c, st1) \<Longrightarrow>
     convert_axiom st1 kore_axiom = Inr (c, st1) \<and> axioms_cache st1 kore_axiom = Some c"
  by (auto simp: convert_axiom_def Let_def split: option.splits sum.splits prod.splits)

theorem convert_axiom_idempotent_witness:
  "\<exists>c st1. convert_axiom (KoreConverter []) (KoreAxiom [] (Kore_Top (SortVar ''S'')) []) = Inr (c, st1)
     \<and> convert_axiom st1 (KoreAxiom [] (Kore_Top (SortVar ''S'')) []) = Inr (c, st1)
     \<and> axioms_cache st1 (KoreAxiom [] (Kore_Top (SortVar ''S'')) []) = Some c
     \<and> c = ConvertedAxiom Unclassified (KoreTop (Symbol ''kore_sort_S''))"
proof -
  obtain c st1 where first:
    "convert_axiom (KoreConverter []) (KoreAxiom [] (Kore_Top (SortVar ''S'')) []) = Inr (c, st1)"
    and c: "c = ConvertedAxiom Unclassified (KoreTop (Symbol ''kore_sort_S''))"
    by (simp add: convert_axiom_def preprocess_axiom_def KoreConverter_def resolve_symbol_sort_def Let_def)
  show ?thesis
    using convert_axiom_idempotent [OF first] first c by blast
qed

text \<open>
  C5, as amended. For an axiom that is not cached yet: an axiom shaped
  \<open>Rewrites(sort, And(lhs, cond_l), And(rhs, cond_r))\<close> is classified \<open>RewriteRule\<close>
  and converted from \<open>Rewrites(sort, lhs, rhs)\<close> alone; an axiom whose pattern is not a
  \<open>Rewrites\<close> is classified \<open>Unclassified\<close> and converted as it is; a \<open>Rewrites\<close>
  axiom with a side that is not an \<open>And\<close> fails with \<open>AssertionError\<close>.
\<close>

theorem convert_axiom_classification:
  "axioms_cache st kore_axiom = None \<Longrightarrow>
   (axiom_pattern kore_axiom = Kore_Rewrites srt (Kore_And sl lhs cond_l) (Kore_And sr rhs cond_r)
      \<longrightarrow> convert_axiom st kore_axiom =
            (case convert_pattern st (Kore_Rewrites srt lhs rhs) of
               Inl e \<Rightarrow> Inl e
             | Inr (p, st1) \<Rightarrow>
                 Inr (ConvertedAxiom RewriteRule p,
                      st1\<lparr>axioms_cache :=
                            (axioms_cache st1)(kore_axiom \<mapsto> ConvertedAxiom RewriteRule p)\<rparr>)))
   \<and> ((\<forall>s l r. axiom_pattern kore_axiom \<noteq> Kore_Rewrites s l r)
      \<longrightarrow> convert_axiom st kore_axiom =
            (case convert_pattern st (axiom_pattern kore_axiom) of
               Inl e \<Rightarrow> Inl e
             | Inr (p, st1) \<Rightarrow>
                 Inr (ConvertedAxiom Unclassified p,
                      st1\<lparr>axioms_cache :=
                            (axioms_cache st1)(kore_axiom \<mapsto> ConvertedAxiom Unclassified p)\<rparr>)))
   \<and> (axiom_pattern kore_axiom = Kore_Rewrites srt l r \<and>
        ((\<forall>s a b. l \<noteq> Kore_And s a b) \<or> (\<forall>s a b. r \<noteq> Kore_And s a b))
      \<longrightarrow> convert_axiom st kore_axiom = Inl AssertionError)"
proof -
  assume miss: "axioms_cache st kore_axiom = None"
  have a: "preprocess_axiom (Kore_Rewrites srt (Kore_And sl lhs cond_l) (Kore_And sr rhs cond_r))
             = Inr (RewriteRule, Kore_Rewrites srt lhs rhs)"
    by (simp add: preprocess_axiom_def)
  have b: "preprocess_axiom p = Inr (Unclassified, p)" if "\<forall>s l r. p \<noteq> Kore_Rewrites s l r" for p
    using that by (cases p) (simp_all add: preprocess_axiom_def)
  have c: "preprocess_axiom (Kore_Rewrites srt l r) = Inl AssertionError"
    if "(\<forall>s a b. l \<noteq> Kore_And s a b) \<or> (\<forall>s a b. r \<noteq> Kore_And s a b)"
    using that by (cases l; cases r) (simp_all add: preprocess_axiom_def)
  show ?thesis
    using miss a b [of "axiom_pattern kore_axiom"] c
    by (auto simp: convert_axiom_def Let_def split: sum.splits prod.splits)
qed

text \<open>
  The claim as stated fails: a \<open>Rewrites\<close> axiom between two \<open>Top\<close> patterns is of
  another shape and could be converted as it is, but its conversion is refused.
\<close>

theorem convert_axiom_classification_counterexample:
  "axioms_cache (KoreConverter [])
     (KoreAxiom [] (Kore_Rewrites (SortVar ''S'') (Kore_Top (SortVar ''S'')) (Kore_Top (SortVar ''S''))) [])
     = None
   \<and> convert_axiom (KoreConverter [])
       (KoreAxiom [] (Kore_Rewrites (SortVar ''S'') (Kore_Top (SortVar ''S'')) (Kore_Top (SortVar ''S''))) [])
     = Inl AssertionError
   \<and> (\<exists>st1. convert_pattern (KoreConverter [])
          (Kore_Rewrites (SortVar ''S'') (Kore_Top (SortVar ''S'')) (Kore_Top (SortVar ''S'')))
        = Inr (KoreRewrites (Symbol ''kore_sort_S'') (KoreTop (Symbol ''kore_sort_S''))
                 (KoreTop (Symbol ''kore_sort_S'')), st1))"
  by (simp add: convert_axiom_def preprocess_axiom_def KoreConverter_def resolve_symbol_sort_def
      KoreRewrites_def KoreTop_def)

theorem convert_axiom_classification_witness:
  "convert_axiom (KoreConverter [])
     (KoreAxiom []
        (Kore_Rewrites (SortVar ''S'')
           (Kore_And (SortVar ''S'') (Kore_EVar ''x'' (SortVar ''S'')) (Kore_Top (SortVar ''S'')))
           (Kore_And (SortVar ''S'') (Kore_EVar ''y'' (SortVar ''S'')) (Kore_Other))) [])
   = (case convert_pattern (KoreConverter [])
             (Kore_Rewrites (SortVar ''S'') (Kore_EVar ''x'' (SortVar ''S'')) (Kore_EVar ''y'' (SortVar ''S''))) of
        Inl e \<Rightarrow> Inl e
      | Inr (p, st1) \<Rightarrow>
          Inr (ConvertedAxiom RewriteRule p,
               st1\<lparr>axioms_cache := (axioms_cache st1)
                 (KoreAxiom []
                    (Kore_Rewrites (SortVar ''S'')
                       (Kore_And (SortVar ''S'') (Kore_EVar ''x'' (SortVar ''S'')) (Kore_Top (SortVar ''S'')))
                       (Kore_And (SortVar ''S'') (Kore_EVar ''y'' (SortVar ''S'')) (Kore_Other))) []
                  \<mapsto> ConvertedAxiom RewriteRule p)\<rparr>))
   \<and> (\<exists>st1. convert_axiom (KoreConverter []) (KoreAxiom [] (Kore_Top (SortVar ''S'')) [])
          = Inr (ConvertedAxiom Unclassified (KoreTop (Symbol ''kore_sort_S'')), st1))
   \<and> convert_axiom (KoreConverter [])
        (KoreAxiom [] (Kore_Rewrites (SortVar ''S'') (Kore_Top (SortVar ''S'')) (Kore_Top (SortVar ''S''))) [])
      = Inl AssertionError"
proof -
  have miss: "axioms_cache (KoreConverter []) a = None" for a
    by (simp add: KoreConverter_def)
  have r: "convert_pattern (KoreConverter []) (Kore_Top (SortVar ''S''))
             = Inr (KoreTop (Symbol ''kore_sort_S''),
                    (KoreConverter [])\<lparr>symbols := (symbols (KoreConverter []))(''S'' \<mapsto> ''kore_sort_S'')\<rparr>)"
    by (simp add: KoreConverter_def resolve_symbol_sort_def)
  show ?thesis
    using convert_axiom_classification
        [OF miss, of _ "SortVar ''S''" "SortVar ''S''" "Kore_EVar ''x'' (SortVar ''S'')"
           "Kore_Top (SortVar ''S'')" "SortVar ''S''" "Kore_EVar ''y'' (SortVar ''S'')" Kore_Other]
      convert_axiom_classification
        [OF miss, of "KoreAxiom [] (Kore_Top (SortVar ''S'')) []"]
      convert_axiom_classification
        [OF miss, of "KoreAxiom [] (Kore_Rewrites (SortVar ''S'') (Kore_Top (SortVar ''S'')) (Kore_Top (SortVar ''S''))) []"
           "SortVar ''S''" _ _ _ _ _ _ "Kore_Top (SortVar ''S'')" "Kore_Top (SortVar ''S'')"]
      r
    by simp
qed

section \<open>Properties of the execution proof engine\<close>

text \<open>
  C9. On an empty trace \<^verbatim>\<open>from_proof_hints\<close> does not fail: it returns a plain proof
  expression with the notations of the language semantics, no axioms, no claims and no
  proofs.
\<close>

theorem from_proof_hints_empty:
  "\<exists>pe. from_proof_hints [] ls = Inr (Plain pe) \<and> claims pe = [] \<and> proof_expressions pe = []
        \<and> axioms pe = [] \<and> notations pe = ls_notations ls"
  by (simp add: from_proof_hints_def ProofExp_init_def)

section \<open>Conversion of cells\<close>

lemma convert_cell_args_length:
  "convert_cell_args st args = Inr (ps, st') \<Longrightarrow> length ps = length args"
proof (induction args arbitrary: st ps st')
  case Nil
  then show ?case by simp
next
  case (Cons k ks)
  then show ?case
    by (cases k) (auto split: sum.splits prod.splits if_splits)
qed

lemma resolve_symbol_is_Symbol: "is_Symbol (fst (resolve_symbol st name))"
  by (simp add: resolve_symbol_def Let_def split: option.splits)

lemma register_cell_is_Symbol: "is_Symbol (fst (register_cell st symbol name))"
  using resolve_symbol_is_Symbol [of st name]
  by (auto simp: register_cell_def Let_def split: prod.splits)

text \<open>
  C6, as amended. For an application whose symbol is a recognized cell symbol (and matches
  the cell naming pattern): with no children it converts to the symbol of the cell; with
  children it converts to a marker applied to the cell's symbol and the chain of the
  converted children alone. The marker is the nested-cells marker exactly when one of the
  converted children is a plain-cell notation, and then at least two children are
  required (one child is an assertion failure); otherwise it is the plain cell marker.
\<close>

theorem convert_cell_shape:
  assumes "symbol \<in> cell_symbols st" and "is_cell_symbol symbol = Some cell_name"
  shows "case register_cell st symbol cell_name of
           (head_symbol, st3) \<Rightarrow>
             is_Symbol head_symbol \<and>
             convert_pattern st (Kore_App symbol sorts []) = Inr (head_symbol, st3) \<and>
             (\<forall>children st4.
                args \<noteq> [] \<and> convert_cell_args st3 args = Inr (children, st4) \<longrightarrow>
                length children = length args \<and>
                convert_pattern st (Kore_App symbol sorts args) =
                  (if \<exists>x \<in> set children. is_Cell x
                   then (if 2 \<le> length children
                         then Inr (KoreNestedCells head_symbol
                                     (foldl App (hd children) (tl children)), st4)
                         else Inl AssertionError)
                   else Inr (Cell head_symbol (foldl App (hd children) (tl children)), st4)))"
proof -
  obtain head_symbol st3 where reg: "register_cell st symbol cell_name = (head_symbol, st3)"
    by (cases "register_cell st symbol cell_name") auto
  have hs: "is_Symbol head_symbol"
    using register_cell_is_Symbol [of st symbol cell_name] reg by simp
  have zero: "convert_pattern st (Kore_App symbol sorts []) = Inr (head_symbol, st3)"
    using assms reg by simp
  have more: "length children = length args \<and>
      convert_pattern st (Kore_App symbol sorts args) =
        (if \<exists>x \<in> set children. is_Cell x
         then (if 2 \<le> length children
               then Inr (KoreNestedCells head_symbol (foldl App (hd children) (tl children)), st4)
               else Inl AssertionError)
         else Inr (Cell head_symbol (foldl App (hd children) (tl children)), st4))"
    if ne: "args \<noteq> []" and cs: "convert_cell_args st3 args = Inr (children, st4)"
    for children st4
  proof -
    have len: "length children = length args"
      using convert_cell_args_length [OF cs] .
    then obtain c cs' where ch: "children = c # cs'"
      using ne by (cases children) auto
    have chain: "chain_patterns children = Inr (foldl App c cs')"
      unfolding ch by (rule chain_patterns_foldl)
    show ?thesis
    proof (cases cs' rule: rev_cases)
      case Nil
      then show ?thesis
        using assms reg ne cs chain len ch
        by (cases c) (auto simp: Let_def)
    next
      case (snoc ys y)
      then show ?thesis
        using assms reg ne cs chain len ch
        by (auto simp: Let_def)
    qed
  qed
  show ?thesis
    using reg hs zero more by simp
qed

lemma gt_cell: "is_cell_symbol GENERATED_TOP_SYMBOL = Some ''generatedTop''"
  by (simp add: is_cell_symbol_def GENERATED_TOP_SYMBOL_def cell_prefix_def cell_suffix_def apostrophe_def)

lemma k_cell: "is_cell_symbol (cell_prefix @ CHR ''k'' # cell_suffix) = Some ''k''"
  by (simp add: is_cell_symbol_def cell_prefix_def cell_suffix_def apostrophe_def)

text \<open>
  The claim as stated fails: the top cell with one child that is itself a cell (the
  \<open>k\<close> cell, which has no children) is wrapped in the plain cell marker, not in the
  nested-cells marker.
\<close>

theorem convert_cell_counterexample:
  "GENERATED_TOP_SYMBOL \<in> cell_symbols (KoreConverter [])
   \<and> is_cell (Kore_App (cell_prefix @ ''k'' @ cell_suffix) [] []) = Some ''k''
   \<and> (\<exists>st. convert_pattern (KoreConverter [])
              (Kore_App GENERATED_TOP_SYMBOL [] [Kore_App (cell_prefix @ ''k'' @ cell_suffix) [] []])
            = Inr (Cell (Symbol ''kore_generatedTop'') (Symbol ''kore_k''), st))
   \<and> \<not> is_NestedCells (Cell (Symbol ''kore_generatedTop'') (Symbol ''kore_k''))
   \<and> Cell (Symbol ''kore_generatedTop'') (Symbol ''kore_k'')
       \<noteq> KoreNestedCells (Symbol ''kore_generatedTop'') (Symbol ''kore_k'')"
  by (simp add: gt_cell k_cell KoreConverter_def register_cell_def resolve_symbol_def Let_def
      collect_functional_symbols_def chain_patterns_foldl Cell_def KoreNestedCells_def)


theorem convert_cell_shape_witness:
  "(\<exists>st. convert_pattern (KoreConverter []) (Kore_App GENERATED_TOP_SYMBOL [] [])
            = Inr (Symbol ''kore_generatedTop'', st))
   \<and> (\<exists>st. convert_pattern (KoreConverter [])
              (Kore_App GENERATED_TOP_SYMBOL []
                 [Kore_App (cell_prefix @ ''k'' @ cell_suffix) [] [Kore_EVar ''x'' (SortVar ''S'')],
                  Kore_EVar ''y'' (SortVar ''S'')])
            = Inr (KoreNestedCells (Symbol ''kore_generatedTop'')
                     (App (Cell (Symbol ''kore_k'') (MetaVar 0)) (MetaVar 1)), st))"
proof -
  define st3 where
    "st3 = snd (register_cell (KoreConverter []) GENERATED_TOP_SYMBOL ''generatedTop'')"
  have reg: "register_cell (KoreConverter []) GENERATED_TOP_SYMBOL ''generatedTop''
               = (Symbol ''kore_generatedTop'', st3)"
    by (simp add: st3_def register_cell_def resolve_symbol_def KoreConverter_def
        collect_functional_symbols_def Let_def)
  have mem: "GENERATED_TOP_SYMBOL \<in> cell_symbols (KoreConverter [])"
    by (simp add: KoreConverter_def)
  have "\<exists>st4. convert_cell_args st3
                 [Kore_App (cell_prefix @ ''k'' @ cell_suffix) [] [Kore_EVar ''x'' (SortVar ''S'')],
                  Kore_EVar ''y'' (SortVar ''S'')]
               = Inr ([Cell (Symbol ''kore_k'') (MetaVar 0), MetaVar 1], st4)"
    by (simp add: st3_def register_cell_def resolve_symbol_def KoreConverter_def
        collect_functional_symbols_def Let_def k_cell resolve_metavar_def chain_patterns_foldl
        Cell_def)
  then obtain st4 where args:
    "convert_cell_args st3
       [Kore_App (cell_prefix @ ''k'' @ cell_suffix) [] [Kore_EVar ''x'' (SortVar ''S'')],
        Kore_EVar ''y'' (SortVar ''S'')]
     = Inr ([Cell (Symbol ''kore_k'') (MetaVar 0), MetaVar 1], st4)"
    by blast
  show ?thesis
    using convert_cell_shape [OF mem gt_cell, of "[]"
        "[Kore_App (cell_prefix @ ''k'' @ cell_suffix) [] [Kore_EVar ''x'' (SortVar ''S'')],
          Kore_EVar ''y'' (SortVar ''S'')]"] reg args
    by (simp add: Cell_def)
qed

section \<open>The rewrite step\<close>

lemma pattern_instantiate_KoreRewrites:
  "pattern_instantiate s (KoreRewrites S L R) =
     KoreRewrites (pattern_instantiate s S) (pattern_instantiate s L) (pattern_instantiate s R)"
  by (simp add: KoreRewrites_def)

lemma assert_matches_KoreRewrites:
  "kore_rewrites_assert_matches (KoreRewrites S L R) = Inr (S, L, R)"
  by (simp add: kore_rewrites_assert_matches_def KoreRewrites_def)

text \<open>
  C1, as amended. Let the rule's pattern be the rewrite relation of \<open>L\<close> and \<open>Rhs\<close>.
  If \<open>L\<close> under the substitution equals the current configuration, every substituted
  pattern has a head symbol registered as functional, and no simplification is pending
  (the visitor's stack is empty and no scope is open), then \<^verbatim>\<open>rewrite_event\<close> succeeds,
  advances the current configuration to \<open>Rhs\<close> under the substitution, and appends
  exactly one claim, the instantiated rule, and one proof, which concludes that claim.
  If \<open>L\<close> under the substitution differs from the current configuration, it fails with
  \<open>AssertionError\<close> and leaves the engine as it was.
\<close>

theorem rewrite_event_guard:
  assumes rule: "rule_pattern rule = KoreRewrites S L Rhs"
  shows
  "(pattern_instantiate s L = curr_config st \<and>
    (\<forall>p \<in> set (map snd s).
        is_Symbol (fst (deconstruct_nary_application p)) \<and>
        (\<exists>k. resolve_to_ksymbol (language_semantics st) (fst (deconstruct_nary_application p)) = Some k \<and>
             is_functional k)) \<and>
    simplification_stack (simplification_visitor st) = [] \<and>
    \<not> in_simplification (simplification_visitor st)
      \<longrightarrow> (\<exists>prf st'. rewrite_event rule s st = (Inr prf, st') \<and>
             curr_config st' = pattern_instantiate s Rhs \<and>
             simplified_configuration (simplification_visitor st') = pattern_instantiate s Rhs \<and>
             claims st' = claims st @ [pattern_instantiate s (KoreRewrites S L Rhs)] \<and>
             proof_expressions st' = proof_expressions st @ [prf] \<and>
             thunk_conclusion prf = pattern_instantiate s (KoreRewrites S L Rhs) \<and>
             init_config st' = init_config st))
   \<and> (pattern_instantiate s L \<noteq> curr_config st
      \<longrightarrow> rewrite_event rule s st = (Inl AssertionError, st))"
proof -
  have m: "kore_rewrites_assert_matches (pattern_instantiate s (rule_pattern rule))
             = Inr (pattern_instantiate s S, pattern_instantiate s L, pattern_instantiate s Rhs)"
    by (simp add: rule pattern_instantiate_KoreRewrites assert_matches_KoreRewrites)
  have bad: "rewrite_event rule s st = (Inl AssertionError, st)"
    if "pattern_instantiate s L \<noteq> curr_config st"
    using that m by (simp add: rewrite_event_def Let_def)
  have good: "\<exists>prf st'. rewrite_event rule s st = (Inr prf, st') \<and>
             curr_config st' = pattern_instantiate s Rhs \<and>
             simplified_configuration (simplification_visitor st') = pattern_instantiate s Rhs \<and>
             claims st' = claims st @ [pattern_instantiate s (KoreRewrites S L Rhs)] \<and>
             proof_expressions st' = proof_expressions st @ [prf] \<and>
             thunk_conclusion prf = pattern_instantiate s (KoreRewrites S L Rhs) \<and>
             init_config st' = init_config st"
    if eq: "pattern_instantiate s L = curr_config st"
      and fn: "\<forall>p \<in> set (map snd s).
        is_Symbol (fst (deconstruct_nary_application p)) \<and>
        (\<exists>k. resolve_to_ksymbol (language_semantics st) (fst (deconstruct_nary_application p)) = Some k \<and>
             is_functional k)"
      and stk: "simplification_stack (simplification_visitor st) = []"
      and ins: "\<not> in_simplification (simplification_visitor st)"
  proof -
    have c: "collect_functional_axioms (language_semantics st) s =
               Inr (map (\<lambda>p. ConvertedAxiom FunctionalSymbol (functional p)) (map snd s))"
      using fn unfolding collect_functional_axioms_def collect_functional_axioms_loop_eq
      by auto
    show ?thesis
      using m eq c stk ins rule
      by (simp add: rewrite_event_def add_assumptions_for_rewrite_step_def Let_def
          update_configuration_def simplified_configuration_def)
  qed
  show ?thesis using good bad by blast
qed

text \<open>
  The claim as stated fails: the left side matches the current configuration, but the
  substituted pattern's head is not a registered functional symbol, and the step is
  refused.
\<close>

theorem rewrite_event_guard_counterexample:
  "pattern_instantiate [(0, Symbol ''a'')] (MetaVar 0)
     = curr_config (ExecutionProofExp_init \<lparr>ls_notations = [], get_axiom = (\<lambda>n. Inl AssertionError),
            count_simplifications = (\<lambda>p. 0), resolve_to_ksymbol = (\<lambda>p. None)\<rparr> (Symbol ''a''))
   \<and> rewrite_event (KRewritingRule (KoreRewrites (Symbol ''S'') (MetaVar 0) (Symbol ''b'')))
        [(0, Symbol ''a'')]
        (ExecutionProofExp_init \<lparr>ls_notations = [], get_axiom = (\<lambda>n. Inl AssertionError),
            count_simplifications = (\<lambda>p. 0), resolve_to_ksymbol = (\<lambda>p. None)\<rparr> (Symbol ''a''))
     = (Inl AssertionError,
        ExecutionProofExp_init \<lparr>ls_notations = [], get_axiom = (\<lambda>n. Inl AssertionError),
            count_simplifications = (\<lambda>p. 0), resolve_to_ksymbol = (\<lambda>p. None)\<rparr> (Symbol ''a''))"
  by (simp add: rewrite_event_def add_assumptions_for_rewrite_step_def Let_def
      collect_functional_axioms_def ExecutionProofExp_init_def KoreRewrites_def
      kore_rewrites_assert_matches_def)

theorem rewrite_event_guard_witness:
  "(\<exists>prf st'.
      rewrite_event (KRewritingRule (KoreRewrites (Symbol ''S'') (MetaVar 0) (App (Symbol ''f'') (MetaVar 0))))
        [(0, Symbol ''a'')]
        (ExecutionProofExp_init
           \<lparr>ls_notations = [], get_axiom = (\<lambda>n. Inl AssertionError),
            count_simplifications = (\<lambda>p. 0),
            resolve_to_ksymbol = (\<lambda>p. if p = Symbol ''a'' then Some (KSymbol ''a'' True) else None)\<rparr>
           (Symbol ''a''))
        = (Inr prf, st')
      \<and> curr_config st' = App (Symbol ''f'') (Symbol ''a'')
      \<and> claims st' = [KoreRewrites (Symbol ''S'') (Symbol ''a'') (App (Symbol ''f'') (Symbol ''a''))]
      \<and> proof_expressions st' = [prf]
      \<and> thunk_conclusion prf = KoreRewrites (Symbol ''S'') (Symbol ''a'') (App (Symbol ''f'') (Symbol ''a'')))
   \<and> rewrite_event (KRewritingRule (KoreRewrites (Symbol ''S'') (MetaVar 0) (App (Symbol ''f'') (MetaVar 0))))
        [(0, Symbol ''a'')]
        (ExecutionProofExp_init
           \<lparr>ls_notations = [], get_axiom = (\<lambda>n. Inl AssertionError),
            count_simplifications = (\<lambda>p. 0),
            resolve_to_ksymbol = (\<lambda>p. if p = Symbol ''a'' then Some (KSymbol ''a'' True) else None)\<rparr>
           (Symbol ''c''))
      = (Inl AssertionError,
         ExecutionProofExp_init
           \<lparr>ls_notations = [], get_axiom = (\<lambda>n. Inl AssertionError),
            count_simplifications = (\<lambda>p. 0),
            resolve_to_ksymbol = (\<lambda>p. if p = Symbol ''a'' then Some (KSymbol ''a'' True) else None)\<rparr>
           (Symbol ''c''))"
proof -
  have r: "rule_pattern (KRewritingRule (KoreRewrites (Symbol ''S'') (MetaVar 0) (App (Symbol ''f'') (MetaVar 0))))
             = KoreRewrites (Symbol ''S'') (MetaVar 0) (App (Symbol ''f'') (MetaVar 0))"
    by simp
  show ?thesis
    using rewrite_event_guard [OF r, of "[(0, Symbol ''a'')]"
        "ExecutionProofExp_init
           \<lparr>ls_notations = [], get_axiom = (\<lambda>n. Inl AssertionError),
            count_simplifications = (\<lambda>p. 0),
            resolve_to_ksymbol = (\<lambda>p. if p = Symbol ''a'' then Some (KSymbol ''a'' True) else None)\<rparr>
           (Symbol ''a'')"]
      rewrite_event_guard [OF r, of "[(0, Symbol ''a'')]"
        "ExecutionProofExp_init
           \<lparr>ls_notations = [], get_axiom = (\<lambda>n. Inl AssertionError),
            count_simplifications = (\<lambda>p. 0),
            resolve_to_ksymbol = (\<lambda>p. if p = Symbol ''a'' then Some (KSymbol ''a'' True) else None)\<rparr>
           (Symbol ''c'')"]
    by (auto simp: ExecutionProofExp_init_def SimplificationVisitor_def KoreRewrites_def)
qed

section \<open>The simplification scope\<close>

text \<open>
  The drain with the source's \<^verbatim>\<open>update_subterm\<close>: one unfolding of the loop decides
  it, since the first exhausted frame already meets the stub.
\<close>

lemma visitor_exit_source:
  "visitor_exit update_subterm v =
     (if simplification_stack v \<noteq> [] \<and>
         simplifications_left (last (simplification_stack v)) = 0
      then Inl NotImplementedError else Inr v)"
  by (subst visitor_exit.simps) (simp add: update_subterm_def Let_def)

lemma visitor_call_source:
  "visitor_call v ordinal substitution loc =
     Inl (if in_simplification v then NotImplementedError else AssertionError)"
  by (simp add: visitor_call_def get_subpattern_def)

text \<open>
  A rewrite step leaves the visitor idle when it found it idle, so every engine that
  \<^verbatim>\<open>from_proof_hints\<close> builds has an empty simplification stack and no open scope.
\<close>

lemma rewrite_event_visitor_idle:
  assumes "simplification_stack (simplification_visitor st) = []"
    and "\<not> in_simplification (simplification_visitor st)"
    and "rewrite_event rule s st = (res, st')"
  shows "simplification_stack (simplification_visitor st') = [] \<and>
         \<not> in_simplification (simplification_visitor st')"
  using assms
  by (auto simp: rewrite_event_def add_assumptions_for_rewrite_step_def Let_def
      update_configuration_def split: sum.splits prod.splits if_splits)

text \<open>
  C2, as amended. When a simplification scope exits, a top frame whose remaining count is
  not 0 stays on the stack, and the exit changes nothing (as it does on an empty stack).
  Splicing is not implemented: an exhausted top frame (remaining count 0) makes the exit
  fail with \<open>NotImplementedError\<close>. A simplification event never completes: it fails with
  \<open>NotImplementedError\<close> before any frame is pushed, or with \<open>AssertionError\<close> when a
  scope is already open.
\<close>

theorem simplification_drain:
  "(simplification_stack v = [] \<longrightarrow> visitor_exit update_subterm v = Inr v)
   \<and> (simplification_stack v \<noteq> [] \<and> simplifications_left (last (simplification_stack v)) \<noteq> 0
        \<longrightarrow> visitor_exit update_subterm v = Inr v)
   \<and> (simplification_stack v \<noteq> [] \<and> simplifications_left (last (simplification_stack v)) = 0
        \<longrightarrow> visitor_exit update_subterm v = Inl NotImplementedError)
   \<and> (\<not> in_simplification (simplification_visitor st)
        \<longrightarrow> simplification_event ordinal substitution loc st = Inl NotImplementedError)
   \<and> (in_simplification (simplification_visitor st)
        \<longrightarrow> simplification_event ordinal substitution loc st = Inl AssertionError)"
proof -
  have ev: "simplification_event ordinal substitution loc st =
              Inl (if in_simplification (simplification_visitor st)
                   then AssertionError else NotImplementedError)"
    by (simp add: simplification_event_def visitor_enter_def visitor_call_source
        visitor_exit_source)
  show ?thesis
    by (simp add: visitor_exit_source ev)
qed

theorem simplification_drain_witness:
  "visitor_exit update_subterm
     (SimplificationVisitor
        \<lparr>ls_notations = [], get_axiom = (\<lambda>n. Inl AssertionError),
            count_simplifications = (\<lambda>p. 0), resolve_to_ksymbol = (\<lambda>p. None)\<rparr>
        (Symbol ''c''))
     = Inr (SimplificationVisitor
        \<lparr>ls_notations = [], get_axiom = (\<lambda>n. Inl AssertionError),
            count_simplifications = (\<lambda>p. 0), resolve_to_ksymbol = (\<lambda>p. None)\<rparr>
        (Symbol ''c''))
   \<and> visitor_exit update_subterm
       ((SimplificationVisitor
          \<lparr>ls_notations = [], get_axiom = (\<lambda>n. Inl AssertionError),
            count_simplifications = (\<lambda>p. 0), resolve_to_ksymbol = (\<lambda>p. None)\<rparr>
          (Symbol ''c''))
        \<lparr>simplification_stack :=
           [\<lparr>location = [], initial_pattern = Symbol ''c'', simplification_result = Symbol ''r'',
             simplifications_left = 1\<rparr>]\<rparr>)
     = Inr ((SimplificationVisitor
          \<lparr>ls_notations = [], get_axiom = (\<lambda>n. Inl AssertionError),
            count_simplifications = (\<lambda>p. 0), resolve_to_ksymbol = (\<lambda>p. None)\<rparr>
          (Symbol ''c''))
        \<lparr>simplification_stack :=
           [\<lparr>location = [], initial_pattern = Symbol ''c'', simplification_result = Symbol ''r'',
             simplifications_left = 1\<rparr>]\<rparr>)
   \<and> visitor_exit update_subterm
       ((SimplificationVisitor
          \<lparr>ls_notations = [], get_axiom = (\<lambda>n. Inl AssertionError),
            count_simplifications = (\<lambda>p. 0), resolve_to_ksymbol = (\<lambda>p. None)\<rparr>
          (Symbol ''c''))
        \<lparr>simplification_stack :=
           [\<lparr>location = [], initial_pattern = Symbol ''c'', simplification_result = Symbol ''r'',
             simplifications_left = 0\<rparr>]\<rparr>)
     = Inl NotImplementedError
   \<and> simplification_event 0 [] []
       (ExecutionProofExp_init
          \<lparr>ls_notations = [], get_axiom = (\<lambda>n. Inl AssertionError),
            count_simplifications = (\<lambda>p. 0), resolve_to_ksymbol = (\<lambda>p. None)\<rparr>
          (Symbol ''c''))
     = Inl NotImplementedError
   \<and> simplification_event 0 [] []
       ((ExecutionProofExp_init
          \<lparr>ls_notations = [], get_axiom = (\<lambda>n. Inl AssertionError),
            count_simplifications = (\<lambda>p. 0), resolve_to_ksymbol = (\<lambda>p. None)\<rparr>
          (Symbol ''c''))
        \<lparr>simplification_visitor :=
           (SimplificationVisitor
              \<lparr>ls_notations = [], get_axiom = (\<lambda>n. Inl AssertionError),
            count_simplifications = (\<lambda>p. 0), resolve_to_ksymbol = (\<lambda>p. None)\<rparr>
              (Symbol ''c''))\<lparr>in_simplification := True\<rparr>\<rparr>)
     = Inl AssertionError"
  using simplification_drain
      [of "SimplificationVisitor
        \<lparr>ls_notations = [], get_axiom = (\<lambda>n. Inl AssertionError),
            count_simplifications = (\<lambda>p. 0), resolve_to_ksymbol = (\<lambda>p. None)\<rparr>
        (Symbol ''c'')"
       "ExecutionProofExp_init
          \<lparr>ls_notations = [], get_axiom = (\<lambda>n. Inl AssertionError),
            count_simplifications = (\<lambda>p. 0), resolve_to_ksymbol = (\<lambda>p. None)\<rparr>
          (Symbol ''c'')" 0 "[]" "[]"]
    simplification_drain
      [of "(SimplificationVisitor
          \<lparr>ls_notations = [], get_axiom = (\<lambda>n. Inl AssertionError),
            count_simplifications = (\<lambda>p. 0), resolve_to_ksymbol = (\<lambda>p. None)\<rparr>
          (Symbol ''c''))
        \<lparr>simplification_stack :=
           [\<lparr>location = [], initial_pattern = Symbol ''c'', simplification_result = Symbol ''r'',
             simplifications_left = 1\<rparr>]\<rparr>"
       "(ExecutionProofExp_init
          \<lparr>ls_notations = [], get_axiom = (\<lambda>n. Inl AssertionError),
            count_simplifications = (\<lambda>p. 0), resolve_to_ksymbol = (\<lambda>p. None)\<rparr>
          (Symbol ''c''))
        \<lparr>simplification_visitor :=
           (SimplificationVisitor
              \<lparr>ls_notations = [], get_axiom = (\<lambda>n. Inl AssertionError),
            count_simplifications = (\<lambda>p. 0), resolve_to_ksymbol = (\<lambda>p. None)\<rparr>
              (Symbol ''c''))\<lparr>in_simplification := True\<rparr>\<rparr>" 0 "[]" "[]"]
    simplification_drain
      [of "(SimplificationVisitor
          \<lparr>ls_notations = [], get_axiom = (\<lambda>n. Inl AssertionError),
            count_simplifications = (\<lambda>p. 0), resolve_to_ksymbol = (\<lambda>p. None)\<rparr>
          (Symbol ''c''))
        \<lparr>simplification_stack :=
           [\<lparr>location = [], initial_pattern = Symbol ''c'', simplification_result = Symbol ''r'',
             simplifications_left = 0\<rparr>]\<rparr>"]
  by (simp add: SimplificationVisitor_def ExecutionProofExp_init_def)

text \<open>
  The claim as stated fails: a batch with a single frame whose remaining count is 0 does
  not drain on exit, and nothing is spliced into the base configuration \<open>c\<close>; the exit
  raises. So does a simplification event on a new engine whose rule for the ordinal
  simplifies \<open>c\<close> to \<open>r\<close> with nothing left.
\<close>

theorem simplification_drain_counterexample:
  "visitor_exit update_subterm
     \<lparr>v_language_semantics =
        \<lparr>ls_notations = [], get_axiom = (\<lambda>n. Inl AssertionError),
         count_simplifications = (\<lambda>p. 0), resolve_to_ksymbol = (\<lambda>p. None)\<rparr>,
      v_curr_config = Symbol ''c'',
      simplification_stack =
        [\<lparr>location = [], initial_pattern = Symbol ''c'', simplification_result = Symbol ''r'',
          simplifications_left = 0\<rparr>],
      in_simplification = True, v_attr_curr_config = None\<rparr>
     = Inl NotImplementedError
   \<and> simplification_event 0 [] []
        (ExecutionProofExp_init
           \<lparr>ls_notations = [],
            get_axiom = (\<lambda>n. Inr (KEquationalRule (Symbol ''c'') (Symbol ''r'') [])),
            count_simplifications = (\<lambda>p. 0), resolve_to_ksymbol = (\<lambda>p. None)\<rparr>
           (Symbol ''c''))
     = Inl NotImplementedError"
  by (simp add: visitor_exit.simps update_subterm_def Let_def
      simplification_event_def visitor_enter_def visitor_call_def get_subpattern_def
      ExecutionProofExp_init_def SimplificationVisitor_def)

section \<open>Completeness of the serializer\<close>

lemma serialize_claims_out:
  "snd (serialize_claims cs mem out) = out @ cs"
  by (induction cs arbitrary: mem out) (auto simp: Pattern_serialize_def)

lemma serialize_proofs_out:
  "serialize_proofs ps mem cs out = Inr (mem', cs', out') \<Longrightarrow>
     out' = out @ ps \<and> length cs \<le> length cs' + length ps"
proof (induction ps arbitrary: mem cs out)
  case Nil
  then show ?case by simp
next
  case (Cons p ps)
  then show ?case
    by (fastforce simp: Proof_serialize_def split: sum.splits list.splits if_splits)
qed

lemma serialize_proofs_conclusions:
  "serialize_proofs ps mem cs out = Inr (mem', cs', out') \<Longrightarrow>
     \<forall>p \<in> set ps. \<exists>c. conclusion p = Inr c"
proof (induction ps arbitrary: mem cs out)
  case Nil
  then show ?case by simp
next
  case (Cons p ps)
  then show ?case
    by (fastforce simp: Proof_serialize_def split: sum.splits)
qed

lemma serialize_proofs_matching:
  "map conclusion ps = map Inr cs \<Longrightarrow>
     \<exists>mem'. serialize_proofs ps mem (cs @ rest) out = Inr (mem', rest, out @ ps)"
proof (induction ps arbitrary: mem cs out)
  case Nil
  then show ?case by simp
next
  case (Cons p ps)
  then obtain c cs' where cs: "cs = c # cs'" and c: "conclusion p = Inr c"
    and rest: "map conclusion ps = map Inr cs'"
    by (cases cs) auto
  show ?case
    using Cons.IH [OF rest,
        of "if (False, c) \<in> set mem then mem else mem @ [(False, c)]" "out @ [p]"] c
    by (simp add: cs Proof_serialize_def)
qed

text \<open>
  When every proof consumed a claim, each proof concludes the claim at its own position.
\<close>

lemma serialize_proofs_consumed:
  "serialize_proofs ps mem cs out = Inr (mem', cs', out') \<Longrightarrow>
   length cs = length cs' + length ps \<Longrightarrow>
     \<exists>pre. cs = pre @ cs' \<and> map conclusion ps = map Inr pre"
proof (induction ps arbitrary: mem cs out)
  case Nil
  then show ?case by simp
next
  case (Cons p ps)
  from Cons.prems(1) obtain c mem1 cs1 where c: "conclusion p = Inr c"
    and cs1: "cs1 = (case cs of [] \<Rightarrow> [] | x # xs \<Rightarrow> if x = c then xs else x # xs)"
    and rest: "serialize_proofs ps mem1 cs1 (out @ [p]) = Inr (mem', cs', out')"
    by (auto simp: Proof_serialize_def split: sum.splits)
  have le: "length cs1 \<le> length cs' + length ps"
    using serialize_proofs_out [OF rest] by simp
  have len: "length cs = Suc (length cs' + length ps)"
    using Cons.prems(2) by simp
  obtain xs where cs: "cs = c # xs" and x: "cs1 = xs"
    using cs1 le len by (cases cs) (auto split: if_splits)
  have "length cs1 = length cs' + length ps"
    using len cs x by simp
  from Cons.IH [OF rest this] obtain pre where "cs1 = pre @ cs'"
    and "map conclusion ps = map Inr pre"
    by blast
  then have "cs = (c # pre) @ cs' \<and> map conclusion (p # ps) = map Inr (c # pre)"
    using cs x c by simp
  then show ?case by blast
qed

lemma serialize_claims_rev:
  "\<exists>m. serialize_claims (rev cs) [] [] = (m, rev cs)"
  using serialize_claims_out [of "rev cs" "[]" "[]"]
  by (cases "serialize_claims (rev cs) [] []") simp

text \<open>
  C4. Serialization writes the claims in reverse of their declaration order and the
  proofs in declaration order. With N claims and N proofs it succeeds exactly when every
  proof concludes the claim at its position; N proofs that do not match, and fewer than N
  proofs, fail (with \<open>AssertionError\<close> when every proof has a conclusion), and a
  serialization that returns never returns truncated streams.
\<close>

theorem serialize_complete:
  "(map conclusion the_proofs = map Inr the_claims
      \<longrightarrow> serialize the_claims the_proofs = Inr (rev the_claims, the_proofs))
   \<and> (length the_proofs = length the_claims \<and> map conclusion the_proofs \<noteq> map Inr the_claims
      \<longrightarrow> (\<exists>e. serialize the_claims the_proofs = Inl e))
   \<and> (length the_proofs < length the_claims
      \<longrightarrow> (\<exists>e. serialize the_claims the_proofs = Inl e))
   \<and> ((\<forall>p \<in> set the_proofs. \<exists>c. conclusion p = Inr c) \<and>
       (length the_proofs < length the_claims \<or>
        length the_proofs = length the_claims \<and> map conclusion the_proofs \<noteq> map Inr the_claims)
      \<longrightarrow> serialize the_claims the_proofs = Inl AssertionError)
   \<and> (\<forall>claims_out proofs_out.
        serialize the_claims the_proofs = Inr (claims_out, proofs_out)
          \<longrightarrow> claims_out = rev the_claims \<and> proofs_out = the_proofs)"
proof -
  obtain m where out: "serialize_claims (rev the_claims) [] [] = (m, rev the_claims)"
    using serialize_claims_rev [of the_claims] by blast
  have a: "serialize the_claims the_proofs = Inr (rev the_claims, the_proofs)"
    if "map conclusion the_proofs = map Inr the_claims"
    using serialize_proofs_matching [OF that, of "[]" "[]" "[]"] out
    by (auto simp: serialize_def)
  have left: "cs' \<noteq> []"
    if run: "serialize_proofs the_proofs [] the_claims [] = Inr (pm, cs', out')"
      and bad: "length the_proofs < length the_claims \<or>
        length the_proofs = length the_claims \<and> map conclusion the_proofs \<noteq> map Inr the_claims"
    for pm cs' out'
  proof
    assume e: "cs' = []"
    from bad show False
    proof
      assume "length the_proofs < length the_claims"
      then show False using serialize_proofs_out [OF run] e by simp
    next
      assume eq: "length the_proofs = length the_claims \<and>
                  map conclusion the_proofs \<noteq> map Inr the_claims"
      then have "length the_claims = length cs' + length the_proofs"
        using e by simp
      from serialize_proofs_consumed [OF run this] e eq show False by simp
    qed
  qed
  have fails: "\<exists>e. serialize the_claims the_proofs = Inl e"
    if bad: "length the_proofs < length the_claims \<or>
        length the_proofs = length the_claims \<and> map conclusion the_proofs \<noteq> map Inr the_claims"
  proof (cases "serialize_proofs the_proofs [] the_claims []")
    case (Inl e)
    then show ?thesis using out by (simp add: serialize_def)
  next
    case (Inr t)
    obtain pm cs' out' where t: "t = (pm, cs', out')" by (cases t) auto
    have "cs' \<noteq> []" using left [OF Inr [unfolded t] bad] .
    then show ?thesis using out Inr t by (simp add: serialize_def)
  qed
  have run: "\<exists>pm cs' out'. serialize_proofs ps pm0 cs out0 = Inr (pm, cs', out')"
    if "\<forall>p \<in> set ps. \<exists>c. conclusion p = Inr c" for ps pm0 cs out0
    using that
    by (induction ps arbitrary: pm0 cs out0) (auto simp: Proof_serialize_def)
  have assertion: "serialize the_claims the_proofs = Inl AssertionError"
    if wf: "\<forall>p \<in> set the_proofs. \<exists>c. conclusion p = Inr c"
      and bad: "length the_proofs < length the_claims \<or>
        length the_proofs = length the_claims \<and> map conclusion the_proofs \<noteq> map Inr the_claims"
  proof -
    obtain pm cs' out' where r: "serialize_proofs the_proofs [] the_claims [] = Inr (pm, cs', out')"
      using run [OF wf] by blast
    have "cs' \<noteq> []" using left [OF r bad] .
    then show ?thesis using out r by (simp add: serialize_def)
  qed
  have c: "claims_out = rev the_claims \<and> proofs_out = the_proofs"
    if "serialize the_claims the_proofs = Inr (claims_out, proofs_out)" for claims_out proofs_out
    using that out
    by (auto simp: serialize_def split: sum.splits prod.splits if_splits
        dest: serialize_proofs_out)
  show ?thesis using a fails assertion c by blast
qed

theorem serialize_complete_witness:
  "serialize Propositional_claims Propositional_proofs
     = Inr (rev Propositional_claims, Propositional_proofs)
   \<and> serialize Propositional_claims [imp_reflexivity] = Inl AssertionError
   \<and> serialize [Symbol ''a''] [Assumption (Symbol ''z'')] = Inl AssertionError
   \<and> serialize Propositional_claims [top_intro, imp_reflexivity] = Inl AssertionError"
proof -
  have m: "map conclusion Propositional_proofs = map Inr Propositional_claims"
    by (simp add: Propositional_proofs_def Propositional_claims_def imp_reflexivity_def
        top_intro_def modus_ponens_def prop1_def prop2_def phi0_def phi0_implies_phi0_def
        top_pattern_def neg_def bot_pattern_def)
  have ci: "conclusion imp_reflexivity = Inr phi0_implies_phi0"
    and ct: "conclusion top_intro = Inr top_pattern"
    using m by (simp_all add: Propositional_proofs_def Propositional_claims_def)
  have ne: "phi0_implies_phi0 \<noteq> top_pattern"
    by (simp add: phi0_implies_phi0_def top_pattern_def neg_def phi0_def bot_pattern_def)
  have one: "serialize Propositional_claims Propositional_proofs
               = Inr (rev Propositional_claims, Propositional_proofs)"
    using serialize_complete [of Propositional_proofs Propositional_claims] m by blast
  have two: "serialize Propositional_claims [imp_reflexivity] = Inl AssertionError"
    using serialize_complete [of "[imp_reflexivity]" Propositional_claims] ci
    by (simp add: Propositional_claims_def)
  have three: "serialize [Symbol ''a''] [Assumption (Symbol ''z'')] = Inl AssertionError"
    using serialize_complete [of "[Assumption (Symbol ''z'')]" "[Symbol ''a'']"]
    by simp
  have four: "serialize Propositional_claims [top_intro, imp_reflexivity] = Inl AssertionError"
    using serialize_complete [of "[top_intro, imp_reflexivity]" Propositional_claims] ci ct ne
    by (simp add: Propositional_claims_def)
  show ?thesis using one two three four by blast
qed

end
